theory Spec2Isabelle
  imports Complex_Main "HOL-Library.AList" "HOL-Library.Char_ord" "HOL-Library.List_Lexorder"
begin

section \<open>Data model\<close>

text \<open>
  The validator of \<^verbatim>\<open>src/validate_schema.py\<close> reads a pandas DataFrame and a contract
  loaded from YAML, and appends violation records to \<^verbatim>\<open>self.violations\<close>.

  A number is a finite value or one of the two infinities. Finite values are exact
  rationals: Python integers, booleans (\<^verbatim>\<open>True == 1\<close>) and the finite floats are all
  rationals, and the comparisons of the source are exact on them. Rounding of float
  arithmetic is not modelled.
\<close>

datatype num = Fin rat | PosInf | NegInf

text \<open>A non-null value of a column, or a literal of the contract: a number or a string.\<close>

datatype scalar = N num | S string

text \<open>
  A cell of a column. \<open>Null\<close> is \<^verbatim>\<open>None\<close>/\<^verbatim>\<open>pd.NA\<close>, \<open>NaN\<close> is the float
  not-a-number; pandas takes both as missing (\<^verbatim>\<open>isna()\<close>).
\<close>

datatype cell = Null | NaN | Val scalar

abbreviation ival :: "rat \<Rightarrow> cell" where
  "ival q \<equiv> Val (N (Fin q))"

abbreviation sval :: "string \<Rightarrow> cell" where
  "sval s \<equiv> Val (S s)"

text \<open>A column (a pandas Series): the printed name of its dtype and its cells.\<close>

record column =
  col_dtype :: string
  cells :: "cell list"

text \<open>
  A DataFrame: \<open>nrows\<close> is \<^verbatim>\<open>len(df)\<close>, \<open>df_columns\<close> the named columns in order.
  \<^verbatim>\<open>df[name]\<close> is the column of that name.
\<close>

record dataframe =
  nrows :: nat
  df_columns :: "(string \<times> column) list"

definition df_col :: "dataframe \<Rightarrow> string \<Rightarrow> column option" where
  "df_col df name = map_of (df_columns df) name"

text \<open>
  One entry of \<^verbatim>\<open>contract['columns']\<close>: each key of the YAML mapping may be absent.
  \<^verbatim>\<open>range\<close> is a pair of numbers, \<^verbatim>\<open>ge\<close> and \<^verbatim>\<open>gt\<close> are numbers, \<^verbatim>\<open>allowed\<close> is a
  list of numbers and strings.
\<close>

record col_spec =
  spec_dtype :: "string option"
  spec_allow_null :: "bool option"
  spec_range :: "(num \<times> num) option"
  spec_ge :: "num option"
  spec_gt :: "num option"
  spec_allowed :: "scalar list option"

type_synonym contract = "(string \<times> col_spec) list"

text \<open>The exceptions the source can raise on these inputs.\<close>

datatype error = KeyError | TypeError

text \<open>
  An issue string. Each constructor is one f-string of the source, with the values
  it interpolates:
  \<^item> \<open>PkGlobalFail n\<close>: \<^verbatim>\<open>FAIL: {n} duplicate Session_IDs found globally\<close>
  \<^item> \<open>PkDayFail d\<close>: \<^verbatim>\<open>FAIL: Session_ID duplicates within days: {d}\<close>
  \<^item> \<open>IdFail n\<close>: \<^verbatim>\<open>FAIL: {n} duplicate 'id' values found\<close>
  \<^item> \<open>NotFound c\<close>: \<^verbatim>\<open>FAIL: Column '{c}' not found in dataset\<close>
  \<^item> \<open>AllNull c\<close>: \<^verbatim>\<open>{c}: all values are null\<close> (warning sign)
  \<^item> \<open>RangeFail c n lo hi\<close>: \<^verbatim>\<open>FAIL: {c} has {n} values outside range [{lo}, {hi}]\<close>
  \<^item> \<open>RangeFound a b\<close>: \<^verbatim>\<open>  Range found: [{a}, {b}]\<close>
  \<^item> \<open>GeFail c n lo\<close>: \<^verbatim>\<open>FAIL: {c} has {n} values < {lo}\<close>
  \<^item> \<open>GtFail c n lo\<close>: \<^verbatim>\<open>FAIL: {c} has {n} values <= {lo}\<close>
  \<^item> \<open>CatFail c k u\<close>: \<^verbatim>\<open>FAIL: {c} has {k} unexpected values: {u}\<close>
  \<^item> \<open>RowsAffected n\<close>: \<^verbatim>\<open>  {n} rows affected\<close>
  \<^item> \<open>CatMissing c m\<close>: \<^verbatim>\<open>{c}: allowed but not present: {m}\<close> (information sign)
  \<^item> \<open>DtypeMismatch c e a\<close>: \<^verbatim>\<open>{c}: expected {e}, got {a}\<close> (warning sign)
  \<^item> \<open>NullFail c n p\<close>: \<^verbatim>\<open>FAIL: {c} has {n} nulls ({p}%) but nulls not allowed\<close>
  \<^item> \<open>InfFail c n\<close>: \<^verbatim>\<open>FAIL: {c} has {n} inf/-inf values\<close>
  \<^item> \<open>ColumnMissing c\<close>: \<^verbatim>\<open>Column '{c}' missing from dataset\<close>
  and the remaining ones are the messages with a check mark. A Python set that is
  printed is kept as a set.
\<close>

datatype issue =
    PkGlobalFail nat | PkGlobalOk
  | PkDayFail "(scalar \<times> nat) list" | PkDayOk
  | IdFail nat | IdOk
  | NotFound string
  | AllNull string
  | RangeFail string nat num num | RangeFound num num | RangeOk string num num
  | GeFail string nat num | GeOk string num
  | GtFail string nat num | GtOk string num
  | CatFail string nat "scalar set" | RowsAffected nat | CatOk string "scalar set"
  | CatMissing string "scalar set"
  | DtypeMismatch string string string
  | NullFail string nat cell
  | InfFail string nat | AllFinite
  | ColumnMissing string

text \<open>
  A record appended to \<^verbatim>\<open>self.violations\<close>; the constructor is the \<^verbatim>\<open>'check'\<close> tag,
  the arguments are the other entries of the dict in the order the source writes them
  (\<^verbatim>\<open>column\<close>, \<^verbatim>\<open>expected\<close>, \<^verbatim>\<open>violations\<close>, then the extra entry).
\<close>

datatype violation =
    V_primary_key_global nat
  | V_primary_key_within_day nat "(scalar \<times> nat) list"
  | V_id_uniqueness nat
  | V_range string "num \<times> num" nat "num \<times> num"
  | V_ge string num nat num
  | V_gt string num nat num
  | V_categorical_allowed string "scalar list" "scalar list" nat
  | V_null_constraint string nat cell
  | V_finite_numbers string nat

text \<open>The dict \<^verbatim>\<open>{'passed': ..., 'issues': [...]}\<close> every check returns.\<close>

record check_result =
  passed :: bool
  issues :: "issue list"

section \<open>Dtype check\<close>

text \<open>The table \<^verbatim>\<open>dtype_mapping\<close> of \<^verbatim>\<open>validate_dtype\<close>.\<close>

definition dtype_mapping :: "(string \<times> string list) list" where
  "dtype_mapping =
    [(''int'', [''int64'', ''int32'', ''int16'', ''int8'', ''Int64'', ''Int32'']),
     (''float'', [''float64'', ''float32'', ''Float64'']),
     (''string'', [''object'', ''string'']),
     (''category'', [''object'', ''string'', ''category'']),
     (''bool'', [''bool'', ''boolean''])]"

text \<open>
  \<^verbatim>\<open>validate_dtype(df, column, expected_dtype)\<close>. It never touches
  \<^verbatim>\<open>self.violations\<close>, so it is a function of its arguments alone.
\<close>

definition validate_dtype :: "dataframe \<Rightarrow> string \<Rightarrow> string \<Rightarrow> check_result" where
  "validate_dtype df name expected_dtype =
    (case df_col df name of
       None \<Rightarrow> \<lparr>passed = False, issues = [NotFound name]\<rparr>
     | Some col \<Rightarrow>
        (case map_of dtype_mapping expected_dtype of
           None \<Rightarrow> \<lparr>passed = True, issues = []\<rparr>
         | Some allowed_dtypes \<Rightarrow>
             if col_dtype col \<notin> set allowed_dtypes
             then \<lparr>passed = False,
                   issues = [DtypeMismatch name expected_dtype (col_dtype col)]\<rparr>
             else \<lparr>passed = True, issues = []\<rparr>))"

section \<open>Numeric range and bound check\<close>

text \<open>\<^verbatim>\<open>a < b\<close> and \<^verbatim>\<open>a <= b\<close> on numbers.\<close>

fun num_less :: "num \<Rightarrow> num \<Rightarrow> bool" where
  "num_less (Fin a) (Fin b) = (a < b)"
| "num_less (Fin a) PosInf = True"
| "num_less (Fin a) NegInf = False"
| "num_less PosInf b = False"
| "num_less NegInf NegInf = False"
| "num_less NegInf b = True"

definition num_le :: "num \<Rightarrow> num \<Rightarrow> bool" where
  "num_le a b = (a = b \<or> num_less a b)"

text \<open>\<^verbatim>\<open>Series.dropna()\<close>: the non-null values, in order.\<close>

fun dropna :: "cell list \<Rightarrow> scalar list" where
  "dropna [] = []"
| "dropna (Null # cs) = dropna cs"
| "dropna (NaN # cs) = dropna cs"
| "dropna (Val v # cs) = v # dropna cs"

text \<open>
  The operand of \<^verbatim>\<open>values < min_val\<close>: comparing a string with a number raises
  \<^verbatim>\<open>TypeError\<close>, and so does comparing a column of categorical storage (taken to be
  unordered, the pandas default) with a number. \<open>None\<close> stands for the raise.
\<close>

fun as_nums :: "scalar list \<Rightarrow> num list option" where
  "as_nums [] = Some []"
| "as_nums (N n # vs) = map_option (Cons n) (as_nums vs)"
| "as_nums (S s # vs) = None"

definition comparable_values :: "column \<Rightarrow> scalar list \<Rightarrow> num list option" where
  "comparable_values col vals =
    (if col_dtype col = ''category'' then None else as_nums vals)"

text \<open>
  \<^verbatim>\<open>values.min()\<close> and \<^verbatim>\<open>values.max()\<close>; the source calls them on a non-empty series
  only, where the start value of the fold is neutral.
\<close>

definition num_min :: "num \<Rightarrow> num \<Rightarrow> num" where
  "num_min a b = (if num_less b a then b else a)"

definition num_max :: "num \<Rightarrow> num \<Rightarrow> num" where
  "num_max a b = (if num_less a b then b else a)"

definition min_value :: "num list \<Rightarrow> num" where
  "min_value xs = fold num_min xs PosInf"

definition max_value :: "num list \<Rightarrow> num" where
  "max_value xs = fold num_max xs NegInf"

text \<open>\<^verbatim>\<open>((values < min_val) | (values > max_val)).sum()\<close>\<close>

definition out_of_range :: "num \<Rightarrow> num \<Rightarrow> num list \<Rightarrow> nat" where
  "out_of_range min_val max_val xs =
     length (filter (\<lambda>v. num_less v min_val \<or> num_less max_val v) xs)"

text \<open>\<^verbatim>\<open>(values < min_val).sum()\<close>\<close>

definition count_less :: "num \<Rightarrow> num list \<Rightarrow> nat" where
  "count_less min_val xs = length (filter (\<lambda>v. num_less v min_val) xs)"

text \<open>\<^verbatim>\<open>(values <= min_val).sum()\<close>\<close>

definition count_less_eq :: "num \<Rightarrow> num list \<Rightarrow> nat" where
  "count_less_eq min_val xs = length (filter (\<lambda>v. num_le v min_val) xs)"

type_synonym check_state = "check_result \<times> violation list"

text \<open>The three blocks of \<^verbatim>\<open>validate_numeric_range\<close>, each run when its key is in the spec.\<close>

definition range_block ::
  "string \<Rightarrow> column \<Rightarrow> scalar list \<Rightarrow> (num \<times> num) option \<Rightarrow> check_state \<Rightarrow> error + check_state" where
  "range_block name col vals r st =
    (case r of
       None \<Rightarrow> Inr st
     | Some (min_val, max_val) \<Rightarrow>
        (case comparable_values col vals of
           None \<Rightarrow> Inl TypeError
         | Some xs \<Rightarrow>
            (let n = out_of_range min_val max_val xs in
             if n > 0
             then Inr (\<lparr>passed = False,
                        issues = issues (fst st) @
                          [RangeFail name n min_val max_val,
                           RangeFound (min_value xs) (max_value xs)]\<rparr>,
                       snd st @ [V_range name (min_val, max_val) n (min_value xs, max_value xs)])
             else Inr ((fst st)\<lparr>issues := issues (fst st) @ [RangeOk name min_val max_val]\<rparr>,
                       snd st))))"

definition ge_block ::
  "string \<Rightarrow> column \<Rightarrow> scalar list \<Rightarrow> num option \<Rightarrow> check_state \<Rightarrow> error + check_state" where
  "ge_block name col vals g st =
    (case g of
       None \<Rightarrow> Inr st
     | Some min_val \<Rightarrow>
        (case comparable_values col vals of
           None \<Rightarrow> Inl TypeError
         | Some xs \<Rightarrow>
            (let n = count_less min_val xs in
             if n > 0
             then Inr (\<lparr>passed = False, issues = issues (fst st) @ [GeFail name n min_val]\<rparr>,
                       snd st @ [V_ge name min_val n (min_value xs)])
             else Inr ((fst st)\<lparr>issues := issues (fst st) @ [GeOk name min_val]\<rparr>, snd st))))"

definition gt_block ::
  "string \<Rightarrow> column \<Rightarrow> scalar list \<Rightarrow> num option \<Rightarrow> check_state \<Rightarrow> error + check_state" where
  "gt_block name col vals g st =
    (case g of
       None \<Rightarrow> Inr st
     | Some min_val \<Rightarrow>
        (case comparable_values col vals of
           None \<Rightarrow> Inl TypeError
         | Some xs \<Rightarrow>
            (let n = count_less_eq min_val xs in
             if n > 0
             then Inr (\<lparr>passed = False, issues = issues (fst st) @ [GtFail name n min_val]\<rparr>,
                       snd st @ [V_gt name min_val n (min_value xs)])
             else Inr ((fst st)\<lparr>issues := issues (fst st) @ [GtOk name min_val]\<rparr>, snd st))))"

text \<open>
  \<^verbatim>\<open>validate_numeric_range(df, column, spec)\<close>; the last argument is
  \<^verbatim>\<open>self.violations\<close> before the call, the result holds it after the call.
\<close>

definition validate_numeric_range ::
  "dataframe \<Rightarrow> string \<Rightarrow> col_spec \<Rightarrow> violation list \<Rightarrow> error + check_state" where
  "validate_numeric_range df name spec vs =
    (case df_col df name of
       None \<Rightarrow> Inr (\<lparr>passed = False, issues = [NotFound name]\<rparr>, vs)
     | Some col \<Rightarrow>
        (let vals = dropna (cells col) in
         if length vals = 0 then Inr (\<lparr>passed = True, issues = [AllNull name]\<rparr>, vs)
         else
           (case range_block name col vals (spec_range spec) (\<lparr>passed = True, issues = []\<rparr>, vs) of
              Inl e \<Rightarrow> Inl e
            | Inr st1 \<Rightarrow>
               (case ge_block name col vals (spec_ge spec) st1 of
                  Inl e \<Rightarrow> Inl e
                | Inr st2 \<Rightarrow> gt_block name col vals (spec_gt spec) st2))))"

section \<open>Categorical allow-list check\<close>

text \<open>
  \<^verbatim>\<open>sorted(s)\<close> on a Python set of numbers and strings. Comparing a number with a
  string raises \<^verbatim>\<open>TypeError\<close>; otherwise the result is the insertion sort by
  \<open>scalar_le\<close>. (Between a number and a string \<open>scalar_le\<close> puts the number first: that
  case is used only for the group keys of \<^verbatim>\<open>groupby\<close>, which does not raise.)
\<close>

fun scalar_le :: "scalar \<Rightarrow> scalar \<Rightarrow> bool" where
  "scalar_le (N a) (N b) = num_le a b"
| "scalar_le (S s) (S t) = (s \<le> t)"
| "scalar_le (N a) (S t) = True"
| "scalar_le (S s) (N b) = False"

fun insort_scalar :: "scalar \<Rightarrow> scalar list \<Rightarrow> scalar list" where
  "insort_scalar x [] = [x]"
| "insort_scalar x (y # ys) =
     (if scalar_le x y then x # y # ys else y # insort_scalar x ys)"

definition sort_scalars :: "scalar list \<Rightarrow> scalar list" where
  "sort_scalars xs = foldr insort_scalar xs []"

fun is_number :: "scalar \<Rightarrow> bool" where
  "is_number (N a) = True"
| "is_number (S s) = False"

text \<open>All numbers or all strings: no comparison of \<^verbatim>\<open>sorted\<close> raises.\<close>

definition same_kind :: "scalar list \<Rightarrow> bool" where
  "same_kind xs = (list_all is_number xs \<or> list_all (\<lambda>x. \<not> is_number x) xs)"

definition py_sorted :: "scalar list \<Rightarrow> error + scalar list" where
  "py_sorted xs = (if same_kind xs then Inr (sort_scalars xs) else Inl TypeError)"

text \<open>\<^verbatim>\<open>unique_values - allowed\<close>, as a duplicate-free list.\<close>

definition unexpected_values :: "scalar list \<Rightarrow> cell list \<Rightarrow> scalar list" where
  "unexpected_values allowed cs = filter (\<lambda>v. v \<notin> set allowed) (remdups (dropna cs))"

text \<open>\<^verbatim>\<open>df[column].isin(unexpected).sum()\<close>\<close>

fun isin :: "scalar list \<Rightarrow> cell \<Rightarrow> bool" where
  "isin u (Val v) = (v \<in> set u)"
| "isin u Null = False"
| "isin u NaN = False"

definition isin_count :: "scalar list \<Rightarrow> cell list \<Rightarrow> nat" where
  "isin_count u cs = length (filter (isin u) cs)"

text \<open>\<^verbatim>\<open>allowed - unique_values\<close>\<close>

definition missing_values :: "scalar list \<Rightarrow> cell list \<Rightarrow> scalar list" where
  "missing_values allowed cs = filter (\<lambda>v. v \<notin> set (dropna cs)) (remdups allowed)"

definition validate_categorical ::
  "dataframe \<Rightarrow> string \<Rightarrow> col_spec \<Rightarrow> violation list \<Rightarrow> error + check_state" where
  "validate_categorical df name spec vs =
    (case df_col df name of
       None \<Rightarrow> Inr (\<lparr>passed = False, issues = [NotFound name]\<rparr>, vs)
     | Some col \<Rightarrow>
        (case spec_allowed spec of
           None \<Rightarrow> Inr (\<lparr>passed = True, issues = []\<rparr>, vs)
         | Some allowed \<Rightarrow>
            (let unexpected = unexpected_values allowed (cells col);
                 missing = missing_values allowed (cells col);
                 note = (if missing \<noteq> [] then [CatMissing name (set missing)] else [])
             in
             if unexpected \<noteq> []
             then
               (let count = isin_count unexpected (cells col) in
                case py_sorted (remdups allowed) of
                  Inl e \<Rightarrow> Inl e
                | Inr sorted_allowed \<Rightarrow>
                   (case py_sorted unexpected of
                      Inl e \<Rightarrow> Inl e
                    | Inr sorted_unexpected \<Rightarrow>
                       Inr (\<lparr>passed = False,
                             issues = [CatFail name (length unexpected) (set unexpected),
                                       RowsAffected count] @ note\<rparr>,
                            vs @ [V_categorical_allowed name sorted_allowed
                                    sorted_unexpected count])))
             else Inr (\<lparr>passed = True, issues = [CatOk name (set allowed)] @ note\<rparr>, vs))))"

section \<open>Null-policy check\<close>

text \<open>\<^verbatim>\<open>Series.isna()\<close> on one cell.\<close>

fun isna :: "cell \<Rightarrow> bool" where
  "isna Null = True"
| "isna NaN = True"
| "isna (Val v) = False"

definition null_count :: "cell list \<Rightarrow> nat" where
  "null_count cs = length (filter isna cs)"

text \<open>
  \<^verbatim>\<open>(null_count / len(df)) * 100\<close>. The count is a numpy integer, so dividing by zero
  gives not-a-number for \<^verbatim>\<open>0 / 0\<close> and infinity otherwise, and does not raise.
\<close>

definition null_pct :: "nat \<Rightarrow> nat \<Rightarrow> cell" where
  "null_pct k n =
    (if n = 0 then (if k = 0 then NaN else Val (N PosInf))
     else ival (of_nat k / of_nat n * 100))"

record null_stat =
  ns_count :: nat
  ns_percentage :: cell
  ns_allow_null :: bool

record nulls_result = check_result +
  null_stats :: "(string \<times> null_stat) list"

text \<open>\<^verbatim>\<open>col_spec.get('allow_null', False)\<close>\<close>

definition get_allow_null :: "col_spec \<Rightarrow> bool" where
  "get_allow_null spec = (case spec_allow_null spec of None \<Rightarrow> False | Some b \<Rightarrow> b)"

text \<open>
  The loop of \<^verbatim>\<open>validate_nulls\<close> over \<^verbatim>\<open>self.contract['columns'].items()\<close>. A Python
  dict is an association list in insertion order; assigning to a key is
  \<open>AList.update\<close> (replace in place, or append).
\<close>

fun nulls_loop ::
  "dataframe \<Rightarrow> contract \<Rightarrow> nulls_result \<times> violation list \<Rightarrow> nulls_result \<times> violation list" where
  "nulls_loop df [] st = st"
| "nulls_loop df ((col_name, spec) # rest) (results, vs) =
    (case df_col df col_name of
       None \<Rightarrow> nulls_loop df rest (results, vs)
     | Some col \<Rightarrow>
        (let k = null_count (cells col);
             pct = null_pct k (nrows df);
             results1 = results\<lparr>null_stats :=
               AList.update col_name
                 \<lparr>ns_count = k, ns_percentage = pct, ns_allow_null = get_allow_null spec\<rparr>
                 (null_stats results)\<rparr>
         in
         if \<not> get_allow_null spec \<and> k > 0
         then nulls_loop df rest
                (results1\<lparr>passed := False,
                          issues := issues results1 @ [NullFail col_name k pct]\<rparr>,
                 vs @ [V_null_constraint col_name k pct])
         else nulls_loop df rest (results1, vs)))"

definition validate_nulls ::
  "contract \<Rightarrow> dataframe \<Rightarrow> violation list \<Rightarrow> nulls_result \<times> violation list" where
  "validate_nulls contract df vs =
     nulls_loop df contract (\<lparr>passed = True, issues = [], null_stats = []\<rparr>, vs)"

section \<open>Finite-value check\<close>

text \<open>
  The dtypes \<^verbatim>\<open>df.select_dtypes(include=[np.number])\<close> selects, among the dtypes
  whose cells this model holds: the integer, float and complex dtypes of numpy and the
  nullable integer and float dtypes of pandas. Booleans, strings and categories are
  not selected.
\<close>

definition number_dtypes :: "string list" where
  "number_dtypes =
    [''int8'', ''int16'', ''int32'', ''int64'',
     ''uint8'', ''uint16'', ''uint32'', ''uint64'',
     ''float16'', ''float32'', ''float64'', ''complex64'', ''complex128'',
     ''Int8'', ''Int16'', ''Int32'', ''Int64'',
     ''UInt8'', ''UInt16'', ''UInt32'', ''UInt64'',
     ''Float32'', ''Float64'']"

definition numeric_cols :: "dataframe \<Rightarrow> (string \<times> column) list" where
  "numeric_cols df = filter (\<lambda>(name, col). col_dtype col \<in> set number_dtypes) (df_columns df)"

text \<open>\<^verbatim>\<open>np.isinf\<close> on one cell of a numeric column.\<close>

fun isinf :: "cell \<Rightarrow> bool" where
  "isinf (Val (N PosInf)) = True"
| "isinf (Val (N NegInf)) = True"
| "isinf c = False"

definition inf_count :: "cell list \<Rightarrow> nat" where
  "inf_count cs = length (filter isinf cs)"

text \<open>
  The loop of \<^verbatim>\<open>validate_finite_numbers\<close>; it runs over the numeric columns with
  their names (\<^verbatim>\<open>df[col]\<close> is the column paired with \<open>col\<close>).
\<close>

fun finite_loop :: "(string \<times> column) list \<Rightarrow> check_state \<Rightarrow> check_state" where
  "finite_loop [] st = st"
| "finite_loop ((name, col) # rest) (results, vs) =
    (let n = inf_count (cells col) in
     if n > 0
     then finite_loop rest
            (\<lparr>passed = False, issues = issues results @ [InfFail name n]\<rparr>,
             vs @ [V_finite_numbers name n])
     else finite_loop rest (results, vs))"

definition validate_finite_numbers :: "dataframe \<Rightarrow> violation list \<Rightarrow> check_state" where
  "validate_finite_numbers df vs =
    (let st = finite_loop (numeric_cols df) (\<lparr>passed = True, issues = []\<rparr>, vs) in
     if passed (fst st)
     then ((fst st)\<lparr>issues := issues (fst st) @ [AllFinite]\<rparr>, snd st)
     else st)"

section \<open>Primary-key check\<close>

text \<open>
  \<^verbatim>\<open>Series.duplicated()\<close>: a cell is marked when an equal cell stands before it
  (missing values count as equal to each other). \<open>dup_count\<close> is
  \<^verbatim>\<open>.duplicated().sum()\<close>.
\<close>

fun duplicated :: "cell list \<Rightarrow> cell list \<Rightarrow> bool list" where
  "duplicated seen [] = []"
| "duplicated seen (x # xs) = (x \<in> set seen) # duplicated (x # seen) xs"

definition dup_count :: "cell list \<Rightarrow> nat" where
  "dup_count xs = length (filter (\<lambda>b. b) (duplicated [] xs))"

text \<open>
  \<^verbatim>\<open>df.groupby('Day')['Session_ID'].apply(lambda x: x.duplicated().sum())\<close>: one entry
  per non-null value of the key column, keys sorted, with the duplicate count of the
  identifiers of the rows of that key.
\<close>

definition group_of :: "scalar \<Rightarrow> cell list \<Rightarrow> cell list \<Rightarrow> cell list" where
  "group_of k keys xs = map snd (filter (\<lambda>(d, x). d = Val k) (zip keys xs))"

definition day_dupes :: "cell list \<Rightarrow> cell list \<Rightarrow> (scalar \<times> nat) list" where
  "day_dupes keys xs =
     map (\<lambda>k. (k, dup_count (group_of k keys xs))) (sort_scalars (remdups (dropna keys)))"

definition validate_primary_keys :: "dataframe \<Rightarrow> violation list \<Rightarrow> error + check_state" where
  "validate_primary_keys df vs =
    (case df_col df ''Session_ID'' of
       None \<Rightarrow> Inl KeyError
     | Some sid \<Rightarrow>
        (let session_dupes = dup_count (cells sid);
             st1 = (if session_dupes > 0
                    then (\<lparr>passed = False, issues = [PkGlobalFail session_dupes]\<rparr>,
                          vs @ [V_primary_key_global session_dupes])
                    else (\<lparr>passed = True, issues = [PkGlobalOk]\<rparr>, vs))
         in
         case df_col df ''Day'' of
           None \<Rightarrow> Inl KeyError
         | Some day \<Rightarrow>
            (let dd = day_dupes (cells day) (cells sid);
                 total = sum_list (map snd dd);
                 problematic_days = filter (\<lambda>(k, n). n > 0) dd;
                 st2 = (if total > 0
                        then (\<lparr>passed = False,
                               issues = issues (fst st1) @ [PkDayFail problematic_days]\<rparr>,
                              snd st1 @ [V_primary_key_within_day total problematic_days])
                        else ((fst st1)\<lparr>issues := issues (fst st1) @ [PkDayOk]\<rparr>, snd st1))
             in
             case df_col df ''id'' of
               None \<Rightarrow> Inr st2
             | Some idc \<Rightarrow>
                (let id_dupes = dup_count (cells idc) in
                 if id_dupes > 0
                 then Inr (\<lparr>passed = False, issues = issues (fst st2) @ [IdFail id_dupes]\<rparr>,
                           snd st2 @ [V_id_uniqueness id_dupes])
                 else Inr ((fst st2)\<lparr>issues := issues (fst st2) @ [IdOk]\<rparr>, snd st2)))))"

section \<open>Orchestrator\<close>

record all_results =
  primary_keys :: check_result
  columns :: "(string \<times> check_result) list"
  nulls :: nulls_result
  finite_numbers :: check_result

text \<open>
  The body of the loop of \<^verbatim>\<open>validate_all\<close> for a column that is in the dataset:
  \<^verbatim>\<open>col_spec['dtype']\<close> raises \<^verbatim>\<open>KeyError\<close> when the key is absent.
\<close>

definition validate_column ::
  "dataframe \<Rightarrow> string \<Rightarrow> col_spec \<Rightarrow> violation list \<Rightarrow> error + check_state" where
  "validate_column df col_name spec vs =
    (case spec_dtype spec of
       None \<Rightarrow> Inl KeyError
     | Some dt \<Rightarrow>
        (let dtype_result = validate_dtype df col_name dt;
             st0 = (\<lparr>passed = passed dtype_result, issues = issues dtype_result\<rparr>, vs)
         in
         case (if dt \<in> set [''int'', ''float'']
               then (case validate_numeric_range df col_name spec vs of
                       Inl e \<Rightarrow> Inl e
                     | Inr (range_result, vs1) \<Rightarrow>
                         Inr (\<lparr>passed = passed (fst st0) \<and> passed range_result,
                               issues = issues (fst st0) @ issues range_result\<rparr>, vs1))
               else Inr st0) of
           Inl e \<Rightarrow> Inl e
         | Inr st1 \<Rightarrow>
            if spec_allowed spec \<noteq> None
            then (case validate_categorical df col_name spec (snd st1) of
                    Inl e \<Rightarrow> Inl e
                  | Inr (cat_result, vs2) \<Rightarrow>
                      Inr (\<lparr>passed = passed (fst st1) \<and> passed cat_result,
                            issues = issues (fst st1) @ issues cat_result\<rparr>, vs2))
            else Inr st1))"

fun columns_loop ::
  "dataframe \<Rightarrow> contract \<Rightarrow> (string \<times> check_result) list \<times> violation list
     \<Rightarrow> error + (string \<times> check_result) list \<times> violation list" where
  "columns_loop df [] st = Inr st"
| "columns_loop df ((col_name, spec) # rest) (cols, vs) =
    (case df_col df col_name of
       None \<Rightarrow>
         columns_loop df rest
           (AList.update col_name \<lparr>passed = False, issues = [ColumnMissing col_name]\<rparr> cols, vs)
     | Some col \<Rightarrow>
        (case validate_column df col_name spec vs of
           Inl e \<Rightarrow> Inl e
         | Inr (col_results, vs1) \<Rightarrow>
             columns_loop df rest (AList.update col_name col_results cols, vs1)))"

text \<open>
  \<^verbatim>\<open>validate_all(df)\<close> of a validator whose contract is \<open>contract\<close> and whose
  \<^verbatim>\<open>self.violations\<close> is \<open>vs\<close> before the call. The result is the returned dict and
  \<^verbatim>\<open>self.violations\<close> after the call, or the exception that ended the run.
\<close>

definition validate_all ::
  "contract \<Rightarrow> dataframe \<Rightarrow> violation list \<Rightarrow> error + all_results \<times> violation list" where
  "validate_all contract df vs =
    (case validate_primary_keys df vs of
       Inl e \<Rightarrow> Inl e
     | Inr (pk, vs1) \<Rightarrow>
        (let (nl, vs2) = validate_nulls contract df vs1;
             (fin, vs3) = validate_finite_numbers df vs2
         in
         case columns_loop df contract ([], vs3) of
           Inl e \<Rightarrow> Inl e
         | Inr (cols, vs4) \<Rightarrow>
             Inr (\<lparr>primary_keys = pk, columns = cols, nulls = nl, finite_numbers = fin\<rparr>, vs4)))"

section \<open>Example inputs\<close>

text \<open>A rule with no key at all, to be extended field by field.\<close>

definition no_rules :: col_spec where
  "no_rules = \<lparr>spec_dtype = None, spec_allow_null = None, spec_range = None,
                spec_ge = None, spec_gt = None, spec_allowed = None\<rparr>"

text \<open>
  A dataset of three rows with unique session identifiers over two days, and further
  columns appended.
\<close>

definition keys_df :: "(string \<times> column) list \<Rightarrow> dataframe" where
  "keys_df extra = \<lparr>nrows = 3, df_columns =
     [(''Session_ID'', \<lparr>col_dtype = ''int64'', cells = [ival 1, ival 2, ival 3]\<rparr>),
      (''Day'', \<lparr>col_dtype = ''int64'', cells = [ival 1, ival 1, ival 2]\<rparr>)] @ extra\<rparr>"

definition text_col :: column where
  "text_col = \<lparr>col_dtype = ''object'', cells = [sval ''a'', sval ''b'', sval ''a'']\<rparr>"

definition mismatch_contract :: contract where
  "mismatch_contract = [(''note'', no_rules\<lparr>spec_dtype := Some ''int''\<rparr>)]"

definition mismatch_df :: dataframe where
  "mismatch_df = keys_df [(''note'', text_col)]"

definition age_col :: column where
  "age_col = \<lparr>col_dtype = ''int64'', cells = [ival 17, ival 30, ival 70]\<rparr>"

definition two_col_df :: dataframe where
  "two_col_df = keys_df [(''note'', text_col), (''age'', age_col)]"

definition missing_dtype_contract :: contract where
  "missing_dtype_contract =
     [(''note'', no_rules), (''age'', no_rules\<lparr>spec_dtype := Some ''int''\<rparr>)]"

text \<open>The scenario of a disallowed null: \<^verbatim>\<open>day = [1, null, 3]\<close> under \<^verbatim>\<open>allow_null: false\<close>.\<close>

definition null_df :: dataframe where
  "null_df = \<lparr>nrows = 3, df_columns =
     [(''day'', \<lparr>col_dtype = ''float64'', cells = [ival 1, NaN, ival 3]\<rparr>)]\<rparr>"

definition null_contract :: contract where
  "null_contract =
     [(''day'', no_rules\<lparr>spec_dtype := Some ''int'', spec_allow_null := Some False\<rparr>)]"

text \<open>A float column with a not-a-number, and one with two infinities as well.\<close>

definition nan_df :: dataframe where
  "nan_df = \<lparr>nrows = 2, df_columns =
     [(''price'', \<lparr>col_dtype = ''float64'', cells = [ival 10, NaN]\<rparr>)]\<rparr>"

definition inf_col :: column where
  "inf_col = \<lparr>col_dtype = ''float64'', cells = [ival 10, Val (N PosInf), NaN, Val (N NegInf)]\<rparr>"

definition inf_df :: dataframe where
  "inf_df = \<lparr>nrows = 4, df_columns = [(''price'', inf_col)]\<rparr>"

text \<open>The scenario of duplicate keys: session identifiers \<^verbatim>\<open>[1, 1, 2]\<close>.\<close>

definition dup_sid :: column where
  "dup_sid = \<lparr>col_dtype = ''int64'', cells = [ival 1, ival 1, ival 2]\<rparr>"

definition dup_day :: column where
  "dup_day = \<lparr>col_dtype = ''int64'', cells = [ival 1, ival 2, ival 2]\<rparr>"

definition dup_df :: dataframe where
  "dup_df = \<lparr>nrows = 3, df_columns =
     [(''Session_ID'', dup_sid), (''Day'', dup_day),
      (''id'', \<lparr>col_dtype = ''int64'', cells = [ival 7, ival 8, ival 7]\<rparr>)]\<rparr>"

text \<open>
  The scenario of an unexpected category: \<^verbatim>\<open>device = ["Mobile", "Phone"]\<close> under the
  allow-list \<^verbatim>\<open>["Mobile", "Desktop", "Tablet"]\<close>.
\<close>

definition device_col :: column where
  "device_col = \<lparr>col_dtype = ''object'', cells = [sval ''Mobile'', sval ''Phone'']\<rparr>"

definition device_df :: dataframe where
  "device_df = \<lparr>nrows = 2, df_columns = [(''device'', device_col)]\<rparr>"

definition device_allowed :: "scalar list" where
  "device_allowed = [S ''Mobile'', S ''Desktop'', S ''Tablet'']"

definition device_spec :: col_spec where
  "device_spec = no_rules\<lparr>spec_dtype := Some ''category'', spec_allowed := Some device_allowed\<rparr>"

text \<open>A column of a string and a number, under the allow-list \<^verbatim>\<open>[0, 1]\<close>.\<close>

definition mixed_df :: dataframe where
  "mixed_df = \<lparr>nrows = 2, df_columns =
     [(''gender'', \<lparr>col_dtype = ''object'', cells = [sval ''x'', ival 2]\<rparr>)]\<rparr>"

definition binary_spec :: col_spec where
  "binary_spec = no_rules\<lparr>spec_dtype := Some ''category'',
                           spec_allowed := Some [N (Fin 0), N (Fin 1)]\<rparr>"

text \<open>A contract around an entry for a column the dataset does not have.\<close>

definition ghost_pre :: contract where
  "ghost_pre = [(''note'', no_rules\<lparr>spec_dtype := Some ''string''\<rparr>)]"

definition ghost_post :: contract where
  "ghost_post = [(''age'', no_rules\<lparr>spec_dtype := Some ''int'', spec_range := Some (Fin 18, Fin 65)\<rparr>)]"

text \<open>A contract for the dataset with duplicate keys, and the dict its run returns.\<close>

definition dup_contract :: contract where
  "dup_contract = [(''id'', no_rules\<lparr>spec_dtype := Some ''int''\<rparr>)]"

definition dup_report :: all_results where
  "dup_report =
     \<lparr>primary_keys = \<lparr>passed = False, issues = [PkGlobalFail 1, PkDayOk, IdFail 1]\<rparr>,
      columns = [(''id'', \<lparr>passed = True, issues = []\<rparr>)],
      nulls = \<lparr>passed = True, issues = [],
               null_stats = [(''id'', \<lparr>ns_count = 0, ns_percentage = ival 0,
                                       ns_allow_null = False\<rparr>)]\<rparr>,
      finite_numbers = \<lparr>passed = True, issues = [AllFinite]\<rparr>\<rparr>"

text \<open>A column with a value at the bound 18, under a range, a \<^verbatim>\<open>ge\<close> and a \<^verbatim>\<open>gt\<close> rule.\<close>

definition bound_col :: column where
  "bound_col = \<lparr>col_dtype = ''float64'', cells = [ival 17, NaN, ival 18, ival 70]\<rparr>"

definition bound_df :: dataframe where
  "bound_df = \<lparr>nrows = 4, df_columns = [(''age'', bound_col)]\<rparr>"

definition bound_spec :: col_spec where
  "bound_spec = no_rules\<lparr>spec_dtype := Some ''float'', spec_range := Some (Fin 18, Fin 70),
                          spec_ge := Some (Fin 18), spec_gt := Some (Fin 18)\<rparr>"

text \<open>Session identifiers \<^verbatim>\<open>[1, 1, 2]\<close> over the days \<^verbatim>\<open>[1, 1, 2]\<close>, with an \<^verbatim>\<open>id\<close> column.\<close>

definition pk_sid :: column where
  "pk_sid = \<lparr>col_dtype = ''int64'', cells = [ival 1, ival 1, ival 2]\<rparr>"

definition pk_day :: column where
  "pk_day = \<lparr>col_dtype = ''int64'', cells = [ival 1, ival 1, ival 2]\<rparr>"

definition pk_df :: dataframe where
  "pk_df = \<lparr>nrows = 3, df_columns =
     [(''Session_ID'', pk_sid), (''Day'', pk_day),
      (''id'', \<lparr>col_dtype = ''int64'', cells = [ival 7, ival 8, ival 7]\<rparr>)]\<rparr>"

text \<open>A dataset without the \<^verbatim>\<open>Day\<close> column, and a contract that names it.\<close>

definition no_day_df :: dataframe where
  "no_day_df = \<lparr>nrows = 3, df_columns =
     [(''Session_ID'', \<lparr>col_dtype = ''int64'', cells = [ival 1, ival 2, ival 3]\<rparr>)]\<rparr>"

definition day_contract :: contract where
  "day_contract = [(''Day'', no_rules\<lparr>spec_dtype := Some ''int''\<rparr>)]"

section \<open>Evaluation and helper lemmas\<close>

lemmas example_defs = no_rules_def keys_df_def text_col_def mismatch_contract_def mismatch_df_def
  age_col_def two_col_df_def missing_dtype_contract_def
  null_df_def null_contract_def nan_df_def inf_col_def inf_df_def
  dup_sid_def dup_day_def dup_df_def device_col_def device_df_def device_allowed_def
  device_spec_def mixed_df_def binary_spec_def ghost_pre_def ghost_post_def
  dup_contract_def dup_report_def bound_col_def bound_df_def bound_spec_def
  pk_sid_def pk_day_def pk_df_def no_day_df_def day_contract_def

lemmas run_defs = validate_all_def validate_primary_keys_def validate_nulls_def
  validate_finite_numbers_def validate_column_def validate_dtype_def validate_numeric_range_def
  validate_categorical_def df_col_def dup_count_def day_dupes_def group_of_def sort_scalars_def
  numeric_cols_def number_dtypes_def inf_count_def null_count_def null_pct_def get_allow_null_def
  dtype_mapping_def num_le_def range_block_def ge_block_def gt_block_def comparable_values_def
  out_of_range_def count_less_def count_less_eq_def py_sorted_def same_kind_def
  unexpected_values_def
  isin_count_def missing_values_def min_value_def max_value_def num_min_def num_max_def Let_def

lemma set_insort_scalar: "set (insort_scalar x xs) = insert x (set xs)"
  by (induction xs) auto

lemma set_sort_scalars: "set (sort_scalars xs) = set xs"
  by (induction xs) (simp_all add: sort_scalars_def set_insort_scalar)

lemma set_dropna: "v \<in> set (dropna cs) \<longleftrightarrow> Val v \<in> set cs"
  by (induction cs rule: dropna.induct) auto

lemma distinct_insort_scalar:
  "distinct (insort_scalar x xs) \<longleftrightarrow> x \<notin> set xs \<and> distinct xs"
  by (induction xs) (auto simp: set_insort_scalar)

lemma distinct_sort_scalars: "distinct xs \<Longrightarrow> distinct (sort_scalars xs)"
  by (induction xs) (simp_all add: sort_scalars_def distinct_insort_scalar
        set_sort_scalars [unfolded sort_scalars_def])

lemma update_other: "k \<noteq> k' \<Longrightarrow> map_of (AList.update k v al) k' = map_of al k'"
  by (simp add: update_conv')

text \<open>A key the loop does not visit keeps its entry of the columns dict.\<close>

lemma columns_loop_untouched:
  "columns_loop df contract (cols, vs) = Inr (cols', vs') \<Longrightarrow> name \<notin> fst ` set contract
     \<Longrightarrow> map_of cols' name = map_of cols name"
proof (induction contract arbitrary: cols vs)
  case Nil
  then show ?case by simp
next
  case (Cons entry rest)
  obtain k sp where entry: "entry = (k, sp)" by (cases entry)
  from Cons.prems(2) entry have ne: "k \<noteq> name" and rest: "name \<notin> fst ` set rest" by auto
  show ?case
  proof (cases "df_col df k")
    case None
    with Cons.prems(1) entry
    have "columns_loop df rest
            (AList.update k \<lparr>passed = False, issues = [ColumnMissing k]\<rparr> cols, vs) = Inr (cols', vs')"
      by simp
    from Cons.IH [OF this rest] ne show ?thesis by (simp add: update_other)
  next
    case (Some col)
    with Cons.prems(1) entry obtain r v1 where
      body: "validate_column df k sp vs = Inr (r, v1)" and
      loop: "columns_loop df rest (AList.update k r cols, v1) = Inr (cols', vs')"
      by (auto split: sum.splits)
    from Cons.IH [OF loop rest] ne show ?thesis by (simp add: update_other)
  qed
qed

text \<open>The entry of a contract column that is in the dataset is what the loop body returned.\<close>

lemma columns_loop_entry:
  "columns_loop df contract (cols, vs) = Inr (cols', vs') \<Longrightarrow> distinct (map fst contract)
     \<Longrightarrow> (name, spec) \<in> set contract \<Longrightarrow> df_col df name = Some col
     \<Longrightarrow> \<exists>r v v'. map_of cols' name = Some r \<and> validate_column df name spec v = Inr (r, v')"
proof (induction contract arbitrary: cols vs)
  case Nil
  then show ?case by simp
next
  case (Cons entry rest)
  obtain k sp where entry: "entry = (k, sp)" by (cases entry)
  show ?case
  proof (cases "(name, spec) = entry")
    case True
    with entry have eq: "k = name" "sp = spec" by auto
    from Cons.prems(2) entry eq have fresh: "name \<notin> fst ` set rest" by auto
    from Cons.prems(1,4) entry eq obtain r v1 where
      body: "validate_column df name spec vs = Inr (r, v1)" and
      loop: "columns_loop df rest (AList.update name r cols, v1) = Inr (cols', vs')"
      by (auto split: sum.splits)
    from columns_loop_untouched [OF loop fresh] have "map_of cols' name = Some r"
      by (simp add: update_conv')
    with body show ?thesis by blast
  next
    case False
    with Cons.prems(3) have mem: "(name, spec) \<in> set rest" by auto
    from Cons.prems(2) have dist: "distinct (map fst rest)" by simp
    show ?thesis
    proof (cases "df_col df k")
      case None
      with Cons.prems(1) entry
      have "columns_loop df rest
              (AList.update k \<lparr>passed = False, issues = [ColumnMissing k]\<rparr> cols, vs) = Inr (cols', vs')"
        by simp
      from Cons.IH [OF this dist mem Cons.prems(4)] show ?thesis .
    next
      case (Some c)
      with Cons.prems(1) entry obtain r v1 where
        loop: "columns_loop df rest (AList.update k r cols, v1) = Inr (cols', vs')"
        by (auto split: sum.splits)
      from Cons.IH [OF loop dist mem Cons.prems(4)] show ?thesis .
    qed
  qed
qed

lemma validate_all_columns:
  "validate_all contract df vs = Inr (res, vs') \<Longrightarrow>
     \<exists>v. columns_loop df contract ([], v) = Inr (columns res, vs')"
  by (auto simp: validate_all_def split: sum.splits prod.splits)

lemma validate_column_dtype:
  assumes "validate_column df name spec v = Inr (r, v')" "spec_dtype spec = Some tag"
  shows "(passed r \<longrightarrow> passed (validate_dtype df name tag)) \<and>
         set (issues (validate_dtype df name tag)) \<subseteq> set (issues r)"
  using assms by (auto simp: validate_column_def Let_def split: sum.splits if_splits)

lemma columns_loop_missing_dtype:
  "(name, spec) \<in> set contract \<Longrightarrow> spec_dtype spec = None \<Longrightarrow> df_col df name = Some col
     \<Longrightarrow> \<exists>e. columns_loop df contract (cols, vs) = Inl e"
proof (induction contract arbitrary: cols vs)
  case Nil
  then show ?case by simp
next
  case (Cons entry rest)
  obtain k sp where entry: "entry = (k, sp)" by (cases entry)
  show ?case
  proof (cases "(name, spec) = entry")
    case True
    with entry Cons.prems(2,3) show ?thesis by (simp add: validate_column_def)
  next
    case False
    with Cons.prems(1) have "(name, spec) \<in> set rest" by auto
    from Cons.IH [OF this Cons.prems(2,3)] entry show ?thesis
      by (auto split: option.splits sum.splits)
  qed
qed

lemma mismatch_run:
  "validate_all mismatch_contract mismatch_df [] =
    Inr (\<lparr>primary_keys = \<lparr>passed = True, issues = [PkGlobalOk, PkDayOk]\<rparr>,
         columns = [(''note'', \<lparr>passed = False,
                                issues = [DtypeMismatch ''note'' ''int'' ''object'']\<rparr>)],
         nulls = \<lparr>passed = True, issues = [],
                  null_stats = [(''note'', \<lparr>ns_count = 0, ns_percentage = ival 0,
                                            ns_allow_null = False\<rparr>)]\<rparr>,
         finite_numbers = \<lparr>passed = True, issues = [AllFinite]\<rparr>\<rparr>, [])"
  by (simp add: example_defs run_defs)

section \<open>Dtype check: mismatches and unrecognised tags\<close>

text \<open>
  C1, as stated, at a concrete input: the column \<^verbatim>\<open>note\<close> is stored as \<^verbatim>\<open>object\<close> and
  the contract expects \<^verbatim>\<open>int\<close>. The full run gives the column the verdict
  \<^verbatim>\<open>passed = False\<close>, with the mismatch as its only issue; the claim says the verdict
  is not set to false.
\<close>

theorem dtype_advisory_counterexample:
  "map_sum id (\<lambda>(res, vs). columns res) (validate_all mismatch_contract mismatch_df []) =
     Inr [(''note'', \<lparr>passed = False, issues = [DtypeMismatch ''note'' ''int'' ''object'']\<rparr>)]"
  by (simp add: mismatch_run)

text \<open>
  C1, amended: for a column present in the data and a rule whose dtype tag is in the
  table of the check, when the column's storage dtype is not among the dtypes listed
  for the tag, the dtype check returns \<^verbatim>\<open>passed = False\<close> with the mismatch as its
  only issue (no violation record is written: the check does not touch the list),
  and in a completed full run the column's overall verdict is false and its issues
  contain the mismatch.
\<close>

theorem dtype_mismatch_fails_column:
  assumes "df_col df name = Some col"
    and "map_of dtype_mapping tag = Some storage"
    and "col_dtype col \<notin> set storage"
    and "distinct (map fst contract)"
    and "(name, spec) \<in> set contract"
    and "spec_dtype spec = Some tag"
    and "validate_all contract df vs = Inr (res, vs')"
  shows "validate_dtype df name tag =
           \<lparr>passed = False, issues = [DtypeMismatch name tag (col_dtype col)]\<rparr> \<and>
         (\<exists>r. map_of (columns res) name = Some r \<and> \<not> passed r \<and>
              DtypeMismatch name tag (col_dtype col) \<in> set (issues r))"
proof -
  have dt: "validate_dtype df name tag =
           \<lparr>passed = False, issues = [DtypeMismatch name tag (col_dtype col)]\<rparr>"
    using assms(1-3) by (simp add: validate_dtype_def)
  from validate_all_columns [OF assms(7)] obtain v where
    "columns_loop df contract ([], v) = Inr (columns res, vs')" ..
  from columns_loop_entry [OF this assms(4,5,1)] obtain r w w' where
    r: "map_of (columns res) name = Some r" "validate_column df name spec w = Inr (r, w')"
    by blast
  from validate_column_dtype [OF r(2) assms(6)] dt
  have "\<not> passed r \<and> DtypeMismatch name tag (col_dtype col) \<in> set (issues r)" by simp
  with dt r(1) show ?thesis by blast
qed

theorem dtype_mismatch_fails_column_witness:
  "df_col mismatch_df ''note'' = Some text_col \<and>
   map_of dtype_mapping ''int'' =
     Some [''int64'', ''int32'', ''int16'', ''int8'', ''Int64'', ''Int32''] \<and>
   col_dtype text_col = ''object'' \<and>
   validate_dtype mismatch_df ''note'' ''int'' =
     \<lparr>passed = False, issues = [DtypeMismatch ''note'' ''int'' ''object'']\<rparr> \<and>
   (\<exists>res r. validate_all mismatch_contract mismatch_df [] = Inr (res, []) \<and>
       map_of (columns res) ''note'' = Some r \<and> \<not> passed r \<and>
       DtypeMismatch ''note'' ''int'' ''object'' \<in> set (issues r))"
proof -
  have h1: "df_col mismatch_df ''note'' = Some text_col"
    by (simp add: example_defs df_col_def)
  have h2: "map_of dtype_mapping ''int'' =
     Some [''int64'', ''int32'', ''int16'', ''int8'', ''Int64'', ''Int32'']"
    by (simp add: dtype_mapping_def)
  have h3: "col_dtype text_col \<notin>
     set [''int64'', ''int32'', ''int16'', ''int8'', ''Int64'', ''Int32'']"
    by (simp add: text_col_def)
  have h4: "distinct (map fst mismatch_contract)"
    by (simp add: mismatch_contract_def)
  have h5: "(''note'', no_rules\<lparr>spec_dtype := Some ''int''\<rparr>) \<in> set mismatch_contract"
    by (simp add: mismatch_contract_def)
  have h6: "spec_dtype (no_rules\<lparr>spec_dtype := Some ''int''\<rparr>) = Some ''int''"
    by simp
  have c: "col_dtype text_col = ''object''" by (simp add: text_col_def)
  from dtype_mismatch_fails_column [OF h1 h2 h3 h4 h5 h6 mismatch_run] h1 h2 c mismatch_run
  show ?thesis by auto
qed

text \<open>
  C10: for a column present in the dataset and an expected dtype tag that is none of
  \<^verbatim>\<open>int\<close>, \<^verbatim>\<open>float\<close>, \<^verbatim>\<open>string\<close>, \<^verbatim>\<open>category\<close>, \<^verbatim>\<open>bool\<close>, the dtype check returns
  \<^verbatim>\<open>passed = True\<close> with no issues, whatever the storage dtype of the column.
\<close>

theorem unrecognized_dtype_accepted:
  assumes "df_col df name = Some col"
    and "tag \<notin> set [''int'', ''float'', ''string'', ''category'', ''bool'']"
  shows "validate_dtype df name tag = \<lparr>passed = True, issues = []\<rparr>"
proof -
  from assms(2) have "map_of dtype_mapping tag = None"
    by (simp add: dtype_mapping_def)
  with assms(1) show ?thesis by (simp add: validate_dtype_def)
qed

theorem unrecognized_dtype_accepted_witness:
  "df_col mismatch_df ''note'' = Some text_col \<and>
   ''datetime'' \<notin> set [''int'', ''float'', ''string'', ''category'', ''bool''] \<and>
   validate_dtype mismatch_df ''note'' ''datetime'' = \<lparr>passed = True, issues = []\<rparr>"
proof -
  have h1: "df_col mismatch_df ''note'' = Some text_col"
    by (simp add: example_defs df_col_def)
  have h2: "''datetime'' \<notin> set [''int'', ''float'', ''string'', ''category'', ''bool'']"
    by simp
  from unrecognized_dtype_accepted [OF h1 h2] h1 h2 show ?thesis by simp
qed

section \<open>A contract entry without dtype\<close>

text \<open>
  C2, as stated, at a concrete input: the entry for \<^verbatim>\<open>note\<close> has no \<^verbatim>\<open>dtype\<close> key and
  the column is in the dataset. The full run ends with \<^verbatim>\<open>KeyError\<close> and returns no
  report, also none for the well-formed entry \<^verbatim>\<open>age\<close>.
\<close>

theorem missing_dtype_counterexample:
  "validate_all missing_dtype_contract two_col_df [] = Inl KeyError"
  by (simp add: example_defs run_defs)

text \<open>
  C2, amended: when the contract has an entry without the \<^verbatim>\<open>dtype\<close> key for a column
  that is in the dataset, the full run raises and returns no report, for any
  contract around that entry and any state of the violation list.
\<close>

theorem missing_dtype_aborts_run:
  assumes "(name, spec) \<in> set contract"
    and "spec_dtype spec = None"
    and "df_col df name = Some col"
  shows "\<exists>e. validate_all contract df vs = Inl e"
proof (cases "validate_primary_keys df vs")
  case (Inl e)
  then show ?thesis by (simp add: validate_all_def)
next
  case (Inr st)
  obtain pk v1 where st: "st = (pk, v1)" by (cases st)
  obtain nl v2 where nl: "validate_nulls contract df v1 = (nl, v2)"
    by (cases "validate_nulls contract df v1")
  obtain fin v3 where fin: "validate_finite_numbers df v2 = (fin, v3)"
    by (cases "validate_finite_numbers df v2")
  from columns_loop_missing_dtype [OF assms] obtain e where
    "columns_loop df contract ([], v3) = Inl e" by blast
  with Inr st nl fin show ?thesis by (simp add: validate_all_def)
qed

theorem missing_dtype_aborts_run_witness:
  "(''note'', no_rules) \<in> set missing_dtype_contract \<and> spec_dtype no_rules = None \<and>
   df_col two_col_df ''note'' = Some text_col \<and>
   (\<exists>e. validate_all missing_dtype_contract two_col_df [] = Inl e)"
proof -
  have h1: "(''note'', no_rules) \<in> set missing_dtype_contract"
    by (simp add: missing_dtype_contract_def)
  have h2: "spec_dtype no_rules = None" by (simp add: no_rules_def)
  have h3: "df_col two_col_df ''note'' = Some text_col"
    by (simp add: example_defs df_col_def)
  from missing_dtype_aborts_run [OF h1 h2 h3, of "[]"] h1 h2 h3 show ?thesis by simp
qed

section \<open>Numeric bounds\<close>

lemma num_less_irrefl: "\<not> num_less a a"
  by (cases a) simp_all

lemma num_le_not_less: "num_le a b \<Longrightarrow> \<not> num_less b a"
  by (cases a; cases b) (auto simp: num_le_def)

text \<open>
  What \<^verbatim>\<open>validate_numeric_range\<close> records on a column whose non-null values \<open>xs\<close> can
  be compared with a bound: every block writes its record exactly when its count over
  \<open>xs\<close> is positive, the record carries that count, and the check passes exactly when
  the counts of the rules present are zero.
\<close>

lemma as_nums_length: "as_nums vals = Some xs \<Longrightarrow> length xs = length vals"
  by (induction vals arbitrary: xs rule: as_nums.induct) auto

lemma numeric_range_records:
  assumes "df_col df name = Some col"
    and "comparable_values col (dropna (cells col)) = Some xs"
    and "xs \<noteq> []"
  shows "\<exists>res new. validate_numeric_range df name spec [] = Inr (res, new) \<and>
     (\<forall>r n a. V_range name r n a \<in> set new \<longleftrightarrow>
        spec_range spec = Some r \<and> n = out_of_range (fst r) (snd r) xs \<and> 0 < n \<and>
        a = (min_value xs, max_value xs)) \<and>
     (\<forall>b n m. V_ge name b n m \<in> set new \<longleftrightarrow>
        spec_ge spec = Some b \<and> n = count_less b xs \<and> 0 < n \<and> m = min_value xs) \<and>
     (\<forall>b n m. V_gt name b n m \<in> set new \<longleftrightarrow>
        spec_gt spec = Some b \<and> n = count_less_eq b xs \<and> 0 < n \<and> m = min_value xs) \<and>
     (passed res \<longleftrightarrow>
        (\<forall>r. spec_range spec = Some r \<longrightarrow> out_of_range (fst r) (snd r) xs = 0) \<and>
        (\<forall>b. spec_ge spec = Some b \<longrightarrow> count_less b xs = 0) \<and>
        (\<forall>b. spec_gt spec = Some b \<longrightarrow> count_less_eq b xs = 0))"
proof -
  from assms(2) have "as_nums (dropna (cells col)) = Some xs"
    by (simp add: comparable_values_def split: if_splits)
  from as_nums_length [OF this] assms(3) have ne: "length (dropna (cells col)) \<noteq> 0" by auto
  show ?thesis
    using assms(1,2) ne
    by (cases "spec_range spec"; cases "spec_ge spec"; cases "spec_gt spec")
       (auto simp: validate_numeric_range_def range_block_def ge_block_def gt_block_def Let_def)
qed


text \<open>The counts of the three blocks when a value equal to the bound is among the values.\<close>

lemma counts_at_bound:
  assumes "num_le lo hi"
  shows "out_of_range lo hi (xs @ lo # ys) = out_of_range lo hi (xs @ ys) \<and>
         out_of_range lo hi (xs @ hi # ys) = out_of_range lo hi (xs @ ys) \<and>
         count_less lo (xs @ lo # ys) = count_less lo (xs @ ys) \<and>
         count_less_eq lo (xs @ lo # ys) = count_less_eq lo (xs @ ys) + 1"
  using num_le_not_less [OF assms]
  by (simp add: out_of_range_def count_less_def count_less_eq_def num_le_def num_less_irrefl)

lemma bound_run:
  "validate_numeric_range bound_df ''age'' bound_spec [] =
     Inr (\<lparr>passed = False,
           issues = [RangeFail ''age'' 1 (Fin 18) (Fin 70), RangeFound (Fin 17) (Fin 70),
                     GeFail ''age'' 1 (Fin 18), GtFail ''age'' 2 (Fin 18)]\<rparr>,
          [V_range ''age'' (Fin 18, Fin 70) 1 (Fin 17, Fin 70),
           V_ge ''age'' (Fin 18) 1 (Fin 17), V_gt ''age'' (Fin 18) 2 (Fin 17)])"
  by (simp add: example_defs run_defs)

text \<open>
  C5: let the non-null values of the checked column be \<open>xs\<close>, then a value \<open>v\<close>, then
  \<open>ys\<close> (so \<open>v\<close> is any non-null value of the column), all comparable with a bound. Then
  \<^verbatim>\<open>validate_numeric_range\<close> returns, and
  \<^item> under a rule \<^verbatim>\<open>range = [lo, hi]\<close> with \<open>lo \<le> hi\<close>, when \<open>v\<close> equals \<open>lo\<close> or \<open>hi\<close>, the
    range record is written exactly when a value among \<open>xs\<close> and \<open>ys\<close> lies outside the
    range, and its count is the number of those values: \<open>v\<close> is not counted;
  \<^item> under a rule \<^verbatim>\<open>ge = b\<close>, when \<open>v\<close> equals \<open>b\<close>, the record is written exactly when a
    value among \<open>xs\<close> and \<open>ys\<close> is below \<open>b\<close>, and its count is the number of those
    values: \<open>v\<close> is not counted;
  \<^item> under a rule \<^verbatim>\<open>gt = b\<close>, when \<open>v\<close> equals \<open>b\<close>, the record is always written, its
    count is one more than the number of values among \<open>xs\<close> and \<open>ys\<close> that are at or
    below \<open>b\<close>, and the check does not pass: \<open>v\<close> is counted.
\<close>

theorem bound_inclusivity:
  assumes "df_col df name = Some col"
    and "comparable_values col (dropna (cells col)) = Some (xs @ v # ys)"
  shows "\<exists>res new. validate_numeric_range df name spec [] = Inr (res, new) \<and>
     (\<forall>lo hi. spec_range spec = Some (lo, hi) \<longrightarrow> num_le lo hi \<longrightarrow> v = lo \<or> v = hi \<longrightarrow>
        (\<forall>r n a. V_range name r n a \<in> set new \<longleftrightarrow>
           r = (lo, hi) \<and>
           n = length (filter (\<lambda>x. num_less x lo \<or> num_less hi x) (xs @ ys)) \<and> 0 < n \<and>
           a = (min_value (xs @ v # ys), max_value (xs @ v # ys)))) \<and>
     (\<forall>b. spec_ge spec = Some b \<longrightarrow> v = b \<longrightarrow>
        (\<forall>c n m. V_ge name c n m \<in> set new \<longleftrightarrow>
           c = b \<and> n = length (filter (\<lambda>x. num_less x b) (xs @ ys)) \<and> 0 < n \<and>
           m = min_value (xs @ v # ys))) \<and>
     (\<forall>b. spec_gt spec = Some b \<longrightarrow> v = b \<longrightarrow>
        (\<forall>c n m. V_gt name c n m \<in> set new \<longleftrightarrow>
           c = b \<and> n = length (filter (\<lambda>x. x = b \<or> num_less x b) (xs @ ys)) + 1 \<and>
           m = min_value (xs @ v # ys)) \<and>
        \<not> passed res)"
proof -
  have ne: "xs @ v # ys \<noteq> []" by simp
  let ?zs = "xs @ v # ys"
  have "\<exists>res new. validate_numeric_range df name spec [] = Inr (res, new) \<and>
     (\<forall>r n a. V_range name r n a \<in> set new \<longleftrightarrow>
        spec_range spec = Some r \<and> n = out_of_range (fst r) (snd r) ?zs \<and> 0 < n \<and>
        a = (min_value ?zs, max_value ?zs)) \<and>
     (\<forall>b n m. V_ge name b n m \<in> set new \<longleftrightarrow>
        spec_ge spec = Some b \<and> n = count_less b ?zs \<and> 0 < n \<and> m = min_value ?zs) \<and>
     (\<forall>b n m. V_gt name b n m \<in> set new \<longleftrightarrow>
        spec_gt spec = Some b \<and> n = count_less_eq b ?zs \<and> 0 < n \<and> m = min_value ?zs) \<and>
     (passed res \<longleftrightarrow>
        (\<forall>r. spec_range spec = Some r \<longrightarrow> out_of_range (fst r) (snd r) ?zs = 0) \<and>
        (\<forall>b. spec_ge spec = Some b \<longrightarrow> count_less b ?zs = 0) \<and>
        (\<forall>b. spec_gt spec = Some b \<longrightarrow> count_less_eq b ?zs = 0))"
    by (rule numeric_range_records [OF assms ne])
  then obtain res new where H: "validate_numeric_range df name spec [] = Inr (res, new) \<and>
     (\<forall>r n a. V_range name r n a \<in> set new \<longleftrightarrow>
        spec_range spec = Some r \<and> n = out_of_range (fst r) (snd r) ?zs \<and> 0 < n \<and>
        a = (min_value ?zs, max_value ?zs)) \<and>
     (\<forall>b n m. V_ge name b n m \<in> set new \<longleftrightarrow>
        spec_ge spec = Some b \<and> n = count_less b ?zs \<and> 0 < n \<and> m = min_value ?zs) \<and>
     (\<forall>b n m. V_gt name b n m \<in> set new \<longleftrightarrow>
        spec_gt spec = Some b \<and> n = count_less_eq b ?zs \<and> 0 < n \<and> m = min_value ?zs) \<and>
     (passed res \<longleftrightarrow>
        (\<forall>r. spec_range spec = Some r \<longrightarrow> out_of_range (fst r) (snd r) ?zs = 0) \<and>
        (\<forall>b. spec_ge spec = Some b \<longrightarrow> count_less b ?zs = 0) \<and>
        (\<forall>b. spec_gt spec = Some b \<longrightarrow> count_less_eq b ?zs = 0))"
    by (elim exE)
  note run = H [THEN conjunct1]
  note rng = H [THEN conjunct2, THEN conjunct1, rule_format]
  note ge = H [THEN conjunct2, THEN conjunct2, THEN conjunct1, rule_format]
  note gt = H [THEN conjunct2, THEN conjunct2, THEN conjunct2, THEN conjunct1, rule_format]
  note ps = H [THEN conjunct2, THEN conjunct2, THEN conjunct2, THEN conjunct2]
  have c1: "\<forall>lo hi. spec_range spec = Some (lo, hi) \<longrightarrow> num_le lo hi \<longrightarrow> v = lo \<or> v = hi \<longrightarrow>
        (\<forall>r n a. V_range name r n a \<in> set new \<longleftrightarrow>
           r = (lo, hi) \<and>
           n = length (filter (\<lambda>x. num_less x lo \<or> num_less hi x) (xs @ ys)) \<and> 0 < n \<and>
           a = (min_value (xs @ v # ys), max_value (xs @ v # ys)))"
  proof (intro allI impI)
    fix lo hi r n a
    assume a: "spec_range spec = Some (lo, hi)" "num_le lo hi" "v = lo \<or> v = hi"
    from counts_at_bound [OF a(2), of xs ys] a(3)
    have "out_of_range lo hi (xs @ v # ys) =
            length (filter (\<lambda>x. num_less x lo \<or> num_less hi x) (xs @ ys))"
      by (auto simp: out_of_range_def)
    with a(1) show "V_range name r n a \<in> set new \<longleftrightarrow>
           r = (lo, hi) \<and>
           n = length (filter (\<lambda>x. num_less x lo \<or> num_less hi x) (xs @ ys)) \<and> 0 < n \<and>
           a = (min_value (xs @ v # ys), max_value (xs @ v # ys))"
      unfolding rng by auto
  qed
  have c2: "\<forall>b. spec_ge spec = Some b \<longrightarrow> v = b \<longrightarrow>
        (\<forall>c n m. V_ge name c n m \<in> set new \<longleftrightarrow>
           c = b \<and> n = length (filter (\<lambda>x. num_less x b) (xs @ ys)) \<and> 0 < n \<and>
           m = min_value (xs @ v # ys))"
  proof (intro allI impI)
    fix b c n m
    assume a: "spec_ge spec = Some b" "v = b"
    have "count_less b (xs @ b # ys) = length (filter (\<lambda>x. num_less x b) (xs @ ys))"
      by (simp add: count_less_def num_less_irrefl)
    with a show "V_ge name c n m \<in> set new \<longleftrightarrow>
           c = b \<and> n = length (filter (\<lambda>x. num_less x b) (xs @ ys)) \<and> 0 < n \<and>
           m = min_value (xs @ v # ys)"
      unfolding ge by auto
  qed
  have cnt: "count_less_eq b (xs @ b # ys) =
          length (filter (\<lambda>x. x = b \<or> num_less x b) (xs @ ys)) + 1" for b
    by (simp add: count_less_eq_def num_le_def)
  have c3: "\<forall>b. spec_gt spec = Some b \<longrightarrow> v = b \<longrightarrow>
        (\<forall>c n m. V_gt name c n m \<in> set new \<longleftrightarrow>
           c = b \<and> n = length (filter (\<lambda>x. x = b \<or> num_less x b) (xs @ ys)) + 1 \<and>
           m = min_value (xs @ v # ys)) \<and>
        \<not> passed res"
  proof (intro allI impI conjI)
    fix b c n m
    assume a: "spec_gt spec = Some b" "v = b"
    with cnt [of b] show "V_gt name c n m \<in> set new \<longleftrightarrow>
           c = b \<and> n = length (filter (\<lambda>x. x = b \<or> num_less x b) (xs @ ys)) + 1 \<and>
           m = min_value (xs @ v # ys)"
      unfolding gt by auto
  next
    fix b
    assume a: "spec_gt spec = Some b" "v = b"
    with cnt [of b] show "\<not> passed res" unfolding ps by auto
  qed
  show ?thesis
    by (rule exI [of _ res], rule exI [of _ new], rule conjI [OF run], rule conjI [OF c1],
        rule conjI [OF c2], rule c3)
qed

theorem bound_inclusivity_witness:
  "df_col bound_df ''age'' = Some bound_col \<and>
   comparable_values bound_col (dropna (cells bound_col)) = Some ([Fin 17] @ Fin 18 # [Fin 70]) \<and>
   spec_range bound_spec = Some (Fin 18, Fin 70) \<and> num_le (Fin 18) (Fin 70) \<and>
   spec_ge bound_spec = Some (Fin 18) \<and> spec_gt bound_spec = Some (Fin 18) \<and>
   (\<exists>res new. validate_numeric_range bound_df ''age'' bound_spec [] = Inr (res, new) \<and>
      new = [V_range ''age'' (Fin 18, Fin 70) 1 (Fin 17, Fin 70),
             V_ge ''age'' (Fin 18) 1 (Fin 17), V_gt ''age'' (Fin 18) 2 (Fin 17)] \<and>
      \<not> passed res)"
proof -
  have h1: "df_col bound_df ''age'' = Some bound_col"
    by (simp add: bound_df_def df_col_def)
  have h2: "comparable_values bound_col (dropna (cells bound_col)) =
              Some ([Fin 17] @ Fin 18 # [Fin 70])"
    by (simp add: bound_col_def comparable_values_def)
  have s: "spec_range bound_spec = Some (Fin 18, Fin 70)" "num_le (Fin 18) (Fin 70)"
      "spec_ge bound_spec = Some (Fin 18)" "spec_gt bound_spec = Some (Fin 18)"
    by (simp_all add: bound_spec_def num_le_def)
  have "\<exists>res new. validate_numeric_range bound_df ''age'' bound_spec [] = Inr (res, new)"
    using bound_inclusivity [OF h1 h2, of bound_spec]
    apply -
    apply (erule exE)
    apply (erule exE)
    apply (erule conjE)
    apply (rule exI)
    apply (rule exI)
    apply assumption
    done
  with h1 h2 s show ?thesis
    by (simp add: bound_run)
qed

section \<open>Null policy\<close>

lemma nulls_loop_untouched:
  "name \<notin> fst ` set contract \<Longrightarrow>
     map_of (null_stats (fst (nulls_loop df contract (res, vs)))) name = map_of (null_stats res) name"
proof (induction contract arbitrary: res vs)
  case Nil
  then show ?case by simp
next
  case (Cons entry rest)
  obtain k sp where entry: "entry = (k, sp)" by (cases entry)
  from Cons.prems entry have ne: "k \<noteq> name" and rest: "name \<notin> fst ` set rest" by auto
  show ?case
    using Cons.IH [OF rest] ne entry
    by (simp add: Let_def update_conv' split: option.splits)
qed

lemma nulls_loop_stats:
  "distinct (map fst contract) \<Longrightarrow> (name, spec) \<in> set contract \<Longrightarrow> df_col df name = Some col \<Longrightarrow>
     map_of (null_stats (fst (nulls_loop df contract (res, vs)))) name =
       Some \<lparr>ns_count = null_count (cells col),
             ns_percentage = null_pct (null_count (cells col)) (nrows df),
             ns_allow_null = get_allow_null spec\<rparr>"
proof (induction contract arbitrary: res vs)
  case Nil
  then show ?case by simp
next
  case (Cons entry rest)
  obtain k sp where entry: "entry = (k, sp)" by (cases entry)
  show ?case
  proof (cases "(name, spec) = entry")
    case True
    with entry have eq: "k = name" "sp = spec" by auto
    from Cons.prems(1) entry eq have fresh: "name \<notin> fst ` set rest" by auto
    show ?thesis
      using entry eq Cons.prems(3) nulls_loop_untouched [OF fresh]
      by (simp add: Let_def update_conv')
  next
    case False
    with Cons.prems(2) have mem: "(name, spec) \<in> set rest" by auto
    from Cons.prems(1) have dist: "distinct (map fst rest)" by simp
    show ?thesis
      using entry Cons.IH [OF dist mem Cons.prems(3)]
      by (simp add: Let_def split: option.splits)
  qed
qed

lemma nulls_loop_violations:
  "v \<in> set (snd (nulls_loop df contract (res, vs))) \<longleftrightarrow>
     v \<in> set vs \<or>
     (\<exists>name spec col. (name, spec) \<in> set contract \<and> df_col df name = Some col \<and>
        \<not> get_allow_null spec \<and> 0 < null_count (cells col) \<and>
        v = V_null_constraint name (null_count (cells col))
              (null_pct (null_count (cells col)) (nrows df)))"
proof (induction contract arbitrary: res vs)
  case Nil
  then show ?case by simp
next
  case (Cons entry rest)
  obtain k sp where entry: "entry = (k, sp)" by (cases entry)
  show ?case
  proof (cases "df_col df k")
    case None
    then show ?thesis using entry Cons.IH by auto
  next
    case (Some c)
    then show ?thesis using entry Cons.IH by (auto simp: Let_def)
  qed
qed

lemma nulls_loop_passed:
  "passed (fst (nulls_loop df contract (res, vs))) \<longleftrightarrow>
     passed res \<and>
     (\<forall>(name, spec) \<in> set contract. \<forall>col. df_col df name = Some col \<longrightarrow>
        get_allow_null spec \<or> null_count (cells col) = 0)"
proof (induction contract arbitrary: res vs)
  case Nil
  then show ?case by simp
next
  case (Cons entry rest)
  obtain k sp where entry: "entry = (k, sp)" by (cases entry)
  show ?case
  proof (cases "df_col df k")
    case None
    then show ?thesis using entry Cons.IH by auto
  next
    case (Some c)
    then show ?thesis using entry Cons.IH by (auto simp: Let_def)
  qed
qed


lemma null_run:
  "validate_nulls null_contract null_df [] =
     (\<lparr>passed = False, issues = [NullFail ''day'' 1 (ival (100 / 3))],
       null_stats = [(''day'', \<lparr>ns_count = 1, ns_percentage = ival (100 / 3),
                                ns_allow_null = False\<rparr>)]\<rparr>,
      [V_null_constraint ''day'' 1 (ival (100 / 3))])"
  by (simp add: null_contract_def null_df_def no_rules_def validate_nulls_def df_col_def
        null_count_def null_pct_def get_allow_null_def Let_def)

text \<open>
  C8: for a contract column that is in the dataset, the null check records the null
  statistics of the column whatever the outcome: the null count, the percentage
  (the count divided by the row count of the dataset, times 100) and the
  \<^verbatim>\<open>allow_null\<close> flag of the rule, which is false when the rule has no such key. A
  violation record for the column is written exactly when nulls are not allowed and
  the null count is positive; it carries the count and the percentage. The check as
  a whole passes exactly when no contract column of the dataset is in that case.
\<close>

theorem null_policy_check:
  assumes "distinct (map fst contract)"
    and "(name, spec) \<in> set contract"
    and "df_col df name = Some col"
  shows "map_of (null_stats (fst (validate_nulls contract df vs))) name =
           Some \<lparr>ns_count = null_count (cells col),
                 ns_percentage = null_pct (null_count (cells col)) (nrows df),
                 ns_allow_null = get_allow_null spec\<rparr> \<and>
         (0 < nrows df \<longrightarrow> null_pct (null_count (cells col)) (nrows df) =
            ival (of_nat (null_count (cells col)) / of_nat (nrows df) * 100)) \<and>
         ((\<exists>k p. V_null_constraint name k p \<in> set (snd (validate_nulls contract df []))) \<longleftrightarrow>
            \<not> get_allow_null spec \<and> 0 < null_count (cells col)) \<and>
         (\<forall>k p. V_null_constraint name k p \<in> set (snd (validate_nulls contract df [])) \<longrightarrow>
            k = null_count (cells col) \<and> p = null_pct (null_count (cells col)) (nrows df)) \<and>
         (passed (fst (validate_nulls contract df vs)) \<longleftrightarrow>
            (\<forall>(n, s) \<in> set contract. \<forall>c. df_col df n = Some c \<longrightarrow>
               get_allow_null s \<or> null_count (cells c) = 0)) \<and>
         (spec_allow_null spec = None \<longrightarrow> \<not> get_allow_null spec)"
proof -
  have stats: "map_of (null_stats (fst (validate_nulls contract df vs))) name =
           Some \<lparr>ns_count = null_count (cells col),
                 ns_percentage = null_pct (null_count (cells col)) (nrows df),
                 ns_allow_null = get_allow_null spec\<rparr>"
    unfolding validate_nulls_def by (rule nulls_loop_stats [OF assms])
  have pct: "0 < nrows df \<longrightarrow> null_pct (null_count (cells col)) (nrows df) =
            ival (of_nat (null_count (cells col)) / of_nat (nrows df) * 100)"
    by (simp add: null_pct_def)
  have rec: "V_null_constraint name k p \<in> set (snd (validate_nulls contract df [])) \<longleftrightarrow>
       \<not> get_allow_null spec \<and> 0 < null_count (cells col) \<and>
       k = null_count (cells col) \<and> p = null_pct (null_count (cells col)) (nrows df)" for k p
  proof
    assume "V_null_constraint name k p \<in> set (snd (validate_nulls contract df []))"
    then obtain s c where sc: "(name, s) \<in> set contract" "df_col df name = Some c"
        "\<not> get_allow_null s" "0 < null_count (cells c)"
        "k = null_count (cells c)" "p = null_pct (null_count (cells c)) (nrows df)"
      unfolding validate_nulls_def nulls_loop_violations by auto
    from eq_key_imp_eq_value [OF assms(1) sc(1) assms(2)] have "s = spec" .
    moreover from sc(2) assms(3) have "c = col" by simp
    ultimately show "\<not> get_allow_null spec \<and> 0 < null_count (cells col) \<and>
       k = null_count (cells col) \<and> p = null_pct (null_count (cells col)) (nrows df)"
      using sc by simp
  next
    assume "\<not> get_allow_null spec \<and> 0 < null_count (cells col) \<and>
       k = null_count (cells col) \<and> p = null_pct (null_count (cells col)) (nrows df)"
    with assms(2,3) show "V_null_constraint name k p \<in> set (snd (validate_nulls contract df []))"
      unfolding validate_nulls_def nulls_loop_violations by blast
  qed
  have ps: "passed (fst (validate_nulls contract df vs)) \<longleftrightarrow>
            (\<forall>(n, s) \<in> set contract. \<forall>c. df_col df n = Some c \<longrightarrow>
               get_allow_null s \<or> null_count (cells c) = 0)"
    unfolding validate_nulls_def nulls_loop_passed by simp
  have dflt: "spec_allow_null spec = None \<longrightarrow> \<not> get_allow_null spec"
    by (simp add: get_allow_null_def)
  from stats pct rec ps dflt show ?thesis by blast
qed

theorem null_policy_check_witness:
  "distinct (map fst null_contract) \<and>
   map_of (null_stats (fst (validate_nulls null_contract null_df []))) ''day'' =
     Some \<lparr>ns_count = 1, ns_percentage = ival (100 / 3), ns_allow_null = False\<rparr> \<and>
   V_null_constraint ''day'' 1 (ival (100 / 3)) \<in> set (snd (validate_nulls null_contract null_df [])) \<and>
   \<not> passed (fst (validate_nulls null_contract null_df []))"
proof -
  have h1: "distinct (map fst null_contract)" by (simp add: null_contract_def)
  have h2: "(''day'', no_rules\<lparr>spec_dtype := Some ''int'', spec_allow_null := Some False\<rparr>)
              \<in> set null_contract"
    by (simp add: null_contract_def)
  have h3: "df_col null_df ''day'' =
              Some \<lparr>col_dtype = ''float64'', cells = [ival 1, NaN, ival 3]\<rparr>"
    by (simp add: null_df_def df_col_def)
  from null_policy_check [OF h1 h2 h3, of "[]"] h1 show ?thesis
    by (simp add: null_run)
qed

section \<open>Finite-value check\<close>

lemma isinf_iff: "isinf c \<longleftrightarrow> c = Val (N PosInf) \<or> c = Val (N NegInf)"
  by (cases c rule: isinf.cases) simp_all

lemma finite_loop_violations:
  "v \<in> set (snd (finite_loop cols (res, vs))) \<longleftrightarrow>
     v \<in> set vs \<or>
     (\<exists>name col. (name, col) \<in> set cols \<and> 0 < inf_count (cells col) \<and>
        v = V_finite_numbers name (inf_count (cells col)))"
proof (induction cols arbitrary: res vs)
  case Nil
  then show ?case by simp
next
  case (Cons entry rest)
  obtain k c where entry: "entry = (k, c)" by (cases entry)
  show ?case using entry Cons.IH by (auto simp: Let_def)
qed

lemma finite_loop_passed:
  "passed (fst (finite_loop cols (res, vs))) \<longleftrightarrow>
     passed res \<and> (\<forall>(name, col) \<in> set cols. inf_count (cells col) = 0)"
proof (induction cols arbitrary: res vs)
  case Nil
  then show ?case by simp
next
  case (Cons entry rest)
  obtain k c where entry: "entry = (k, c)" by (cases entry)
  show ?case using entry Cons.IH by (auto simp: Let_def)
qed

lemma validate_finite_numbers_snd:
  "snd (validate_finite_numbers df vs) =
     snd (finite_loop (numeric_cols df) (\<lparr>passed = True, issues = []\<rparr>, vs))"
  by (simp add: validate_finite_numbers_def Let_def)

lemma validate_finite_numbers_passed:
  "passed (fst (validate_finite_numbers df vs)) =
     passed (fst (finite_loop (numeric_cols df) (\<lparr>passed = True, issues = []\<rparr>, vs)))"
  by (simp add: validate_finite_numbers_def Let_def)

text \<open>
  C3, as stated, at a concrete input: the float column \<^verbatim>\<open>price\<close> holds a not-a-number.
  The finite-value check passes and writes no record; the claim says a
  not-a-number fails the column.
\<close>

theorem nan_not_counted_counterexample:
  "validate_finite_numbers nan_df [] = (\<lparr>passed = True, issues = [AllFinite]\<rparr>, [])"
  by (simp add: example_defs run_defs)

text \<open>
  C3, amended: for every column of the dataset whose dtype is numeric (whether or
  not the contract names it), the finite-value check writes a record for the column
  exactly when the column holds an infinite value, the record carries the number of
  infinite cells, and the check then does not pass; the count is the number of cells
  that are plus or minus infinity, so null and not-a-number cells are never counted.
\<close>

theorem finite_check_counts_infinities:
  assumes "distinct (map fst (df_columns df))"
    and "(name, col) \<in> set (df_columns df)"
    and "col_dtype col \<in> set number_dtypes"
  shows "(V_finite_numbers name n \<in> set (snd (validate_finite_numbers df [])) \<longleftrightarrow>
            n = inf_count (cells col) \<and> 0 < n) \<and>
         (passed (fst (validate_finite_numbers df vs)) \<longleftrightarrow>
            (\<forall>(k, c) \<in> set (numeric_cols df). inf_count (cells c) = 0)) \<and>
         (0 < inf_count (cells col) \<longrightarrow> \<not> passed (fst (validate_finite_numbers df vs))) \<and>
         inf_count (cells col) =
           length (filter (\<lambda>c. c = Val (N PosInf) \<or> c = Val (N NegInf)) (cells col))"
proof -
  from assms(2,3) have num: "(name, col) \<in> set (numeric_cols df)"
    by (simp add: numeric_cols_def)
  have rec: "V_finite_numbers name n \<in> set (snd (validate_finite_numbers df [])) \<longleftrightarrow>
            n = inf_count (cells col) \<and> 0 < n"
  proof
    assume "V_finite_numbers name n \<in> set (snd (validate_finite_numbers df []))"
    then obtain c where c: "(name, c) \<in> set (numeric_cols df)" "0 < inf_count (cells c)"
        "n = inf_count (cells c)"
      unfolding validate_finite_numbers_snd finite_loop_violations by auto
    from c(1) have "(name, c) \<in> set (df_columns df)" by (simp add: numeric_cols_def)
    from eq_key_imp_eq_value [OF assms(1) this assms(2)] c show "n = inf_count (cells col) \<and> 0 < n"
      by simp
  next
    assume "n = inf_count (cells col) \<and> 0 < n"
    with num show "V_finite_numbers name n \<in> set (snd (validate_finite_numbers df []))"
      unfolding validate_finite_numbers_snd finite_loop_violations by blast
  qed
  have ps: "passed (fst (validate_finite_numbers df vs)) \<longleftrightarrow>
            (\<forall>(k, c) \<in> set (numeric_cols df). inf_count (cells c) = 0)"
    unfolding validate_finite_numbers_passed finite_loop_passed by simp
  with num have fail: "0 < inf_count (cells col) \<longrightarrow> \<not> passed (fst (validate_finite_numbers df vs))"
    by auto
  have "isinf = (\<lambda>c. c = Val (N PosInf) \<or> c = Val (N NegInf))"
    by (rule ext) (rule isinf_iff)
  then have cnt: "inf_count (cells col) =
           length (filter (\<lambda>c. c = Val (N PosInf) \<or> c = Val (N NegInf)) (cells col))"
    by (simp add: inf_count_def)
  from rec ps fail cnt show ?thesis by blast
qed

lemma inf_run:
  "validate_finite_numbers inf_df [] =
     (\<lparr>passed = False, issues = [InfFail ''price'' 2]\<rparr>, [V_finite_numbers ''price'' 2])"
  by (simp add: example_defs run_defs)

theorem finite_check_counts_infinities_witness:
  "distinct (map fst (df_columns inf_df)) \<and> (''price'', inf_col) \<in> set (df_columns inf_df) \<and>
   col_dtype inf_col \<in> set number_dtypes \<and>
   V_finite_numbers ''price'' 2 \<in> set (snd (validate_finite_numbers inf_df [])) \<and>
   \<not> passed (fst (validate_finite_numbers inf_df [])) \<and>
   inf_count (cells inf_col) = 2"
proof -
  have h1: "distinct (map fst (df_columns inf_df))" by (simp add: inf_df_def)
  have h2: "(''price'', inf_col) \<in> set (df_columns inf_df)" by (simp add: inf_df_def)
  have h3: "col_dtype inf_col \<in> set number_dtypes"
    by (simp add: inf_col_def number_dtypes_def)
  have c: "inf_count (cells inf_col) = 2" by (simp add: inf_col_def inf_count_def)
  from finite_check_counts_infinities [OF h1 h2 h3, of 2 "[]"] h1 h2 h3 c show ?thesis
    by (simp add: inf_run)
qed

section \<open>Primary keys\<close>

lemma duplicated_count:
  "length (filter (\<lambda>b. b) (duplicated seen xs)) + card (set seen \<union> set xs) =
     length xs + card (set seen)"
proof (induction xs arbitrary: seen)
  case Nil
  then show ?case by simp
next
  case (Cons x xs)
  have u: "set (x # seen) \<union> set xs = set seen \<union> set (x # xs)" by auto
  from Cons.IH [of "x # seen"] u
  have "length (filter (\<lambda>b. b) (duplicated (x # seen) xs)) + card (set seen \<union> set (x # xs)) =
          length xs + card (set (x # seen))"
    by simp
  then show ?case by (cases "x \<in> set seen") (simp_all add: insert_absorb)
qed

lemma dup_count_card: "dup_count xs = length xs - card (set xs)"
  using duplicated_count [of "[]" xs] by (simp add: dup_count_def)

lemma pk_run:
  "validate_primary_keys pk_df [] =
     Inr (\<lparr>passed = False,
           issues = [PkGlobalFail 1, PkDayFail [(N (Fin 1), 1)], IdFail 1]\<rparr>,
          [V_primary_key_global 1, V_primary_key_within_day 1 [(N (Fin 1), 1)],
           V_id_uniqueness 1])"
  by (simp add: example_defs run_defs)

lemma pk_day_dupes: "day_dupes (cells pk_day) (cells pk_sid) = [(N (Fin 1), 1), (N (Fin 2), 0)]"
  by (simp add: example_defs run_defs)

text \<open>What the primary-key check writes, in terms of the duplicate counts.\<close>

lemma primary_key_records:
  assumes "df_col df ''Session_ID'' = Some sid"
    and "df_col df ''Day'' = Some day"
  shows "\<exists>res new. validate_primary_keys df [] = Inr (res, new) \<and>
     dup_count (cells sid) = length (cells sid) - card (set (cells sid)) \<and>
     (\<forall>n. V_primary_key_global n \<in> set new \<longleftrightarrow> n = dup_count (cells sid) \<and> 0 < n) \<and>
     (\<forall>t p. V_primary_key_within_day t p \<in> set new \<longleftrightarrow>
        t = sum_list (map snd (day_dupes (cells day) (cells sid))) \<and> 0 < t \<and>
        p = filter (\<lambda>(k, n). 0 < n) (day_dupes (cells day) (cells sid))) \<and>
     (\<forall>m. V_id_uniqueness m \<in> set new \<longleftrightarrow>
        (\<exists>idc. df_col df ''id'' = Some idc \<and> m = dup_count (cells idc) \<and> 0 < m)) \<and>
     (passed res \<longleftrightarrow>
        dup_count (cells sid) = 0 \<and>
        sum_list (map snd (day_dupes (cells day) (cells sid))) = 0 \<and>
        (\<forall>idc. df_col df ''id'' = Some idc \<longrightarrow> dup_count (cells idc) = 0)) \<and>
     (cells sid = [ival 1, ival 1, ival 2] \<longrightarrow>
        V_primary_key_global 1 \<in> set new \<and> PkGlobalFail 1 \<in> set (issues res) \<and> \<not> passed res)"
proof -
  have d: "dup_count [ival 1, ival 1, ival 2] = 1" by (simp add: dup_count_def)
  show ?thesis
  proof (cases "df_col df ''id''")
    case None
    with assms d show ?thesis
      by (auto simp: validate_primary_keys_def Let_def dup_count_card [symmetric]
          simp del: sum_list_eq_0_iff)
  next
    case (Some idc)
    with assms d show ?thesis
      by (auto simp: validate_primary_keys_def Let_def dup_count_card [symmetric]
          simp del: sum_list_eq_0_iff)
  qed
qed


text \<open>
  The per-partition counts: one entry for each non-null value of the partition
  column and no other, each with the number of duplicates among the identifiers of
  the rows of that value.
\<close>

lemma day_dupes_keys:
  "map fst (day_dupes keys xs) = sort_scalars (remdups (dropna keys))"
  by (simp add: day_dupes_def comp_def)

lemma distinct_day_dupes: "distinct (map fst (day_dupes keys xs))"
  by (simp add: day_dupes_keys distinct_sort_scalars)

lemma day_dupes_entry:
  "(k, n) \<in> set (day_dupes keys xs) \<longleftrightarrow>
     Val k \<in> set keys \<and>
     n = length (map snd (filter (\<lambda>(d, x). d = Val k) (zip keys xs))) -
         card (set (map snd (filter (\<lambda>(d, x). d = Val k) (zip keys xs))))"
  by (auto simp: day_dupes_def set_sort_scalars set_dropna dup_count_card group_of_def)

lemma day_dupes_total:
  "sum_list (map snd (day_dupes keys xs)) =
     (\<Sum>k | Val k \<in> set keys.
        length (map snd (filter (\<lambda>(d, x). d = Val k) (zip keys xs))) -
        card (set (map snd (filter (\<lambda>(d, x). d = Val k) (zip keys xs)))))"
proof -
  let ?f = "\<lambda>k. dup_count (group_of k keys xs)"
  let ?ks = "sort_scalars (remdups (dropna keys))"
  have "map snd (day_dupes keys xs) = map ?f ?ks"
    by (simp add: day_dupes_def comp_def)
  moreover have "distinct ?ks" by (simp add: distinct_sort_scalars)
  ultimately have "sum_list (map snd (day_dupes keys xs)) = sum ?f (set ?ks)"
    by (simp add: sum_list_distinct_conv_sum_set)
  moreover have "set ?ks = {k. Val k \<in> set keys}"
    by (auto simp: set_sort_scalars set_dropna)
  ultimately show ?thesis by (simp add: dup_count_card group_of_def)
qed

text \<open>
  C9: when the dataset has the identifier column \<^verbatim>\<open>Session_ID\<close> and the partition
  column \<^verbatim>\<open>Day\<close>, the primary-key check returns, and
  \<^item> the per-partition counts have exactly one entry for each non-null value of
    \<^verbatim>\<open>Day\<close>, whose count is the number of rows of that value minus the number of
    distinct identifiers among them; their sum is the sum of these numbers over the
    values of \<^verbatim>\<open>Day\<close>;
  \<^item> the duplicate count of a column is its length minus its number of distinct cells;
  \<^item> a global record is written exactly when the global duplicate count of the
    identifier is positive, and carries that count;
  \<^item> a within-day record is written exactly when the sum of the per-partition counts
    is positive; it carries the sum and the partition values with a positive count;
  \<^item> a record for the secondary column \<^verbatim>\<open>id\<close> is written exactly when the column is
    present and its global duplicate count is positive (there is no per-partition
    check of it);
  \<^item> the check passes exactly when all these counts are zero;
  \<^item> identifiers \<^verbatim>\<open>[1, 1, 2]\<close> give the global duplicate count 1 and \<^verbatim>\<open>passed = False\<close>.
\<close>

theorem primary_key_check:
  assumes "df_col df ''Session_ID'' = Some sid"
    and "df_col df ''Day'' = Some day"
  shows "\<exists>res new. validate_primary_keys df [] = Inr (res, new) \<and>
     distinct (map fst (day_dupes (cells day) (cells sid))) \<and>
     (\<forall>k n. (k, n) \<in> set (day_dupes (cells day) (cells sid)) \<longleftrightarrow>
        Val k \<in> set (cells day) \<and>
        n = length (map snd (filter (\<lambda>(d, x). d = Val k) (zip (cells day) (cells sid)))) -
            card (set (map snd (filter (\<lambda>(d, x). d = Val k) (zip (cells day) (cells sid)))))) \<and>
     sum_list (map snd (day_dupes (cells day) (cells sid))) =
       (\<Sum>k | Val k \<in> set (cells day).
          length (map snd (filter (\<lambda>(d, x). d = Val k) (zip (cells day) (cells sid)))) -
          card (set (map snd (filter (\<lambda>(d, x). d = Val k) (zip (cells day) (cells sid)))))) \<and>
     dup_count (cells sid) = length (cells sid) - card (set (cells sid)) \<and>
     (\<forall>n. V_primary_key_global n \<in> set new \<longleftrightarrow> n = dup_count (cells sid) \<and> 0 < n) \<and>
     (\<forall>t p. V_primary_key_within_day t p \<in> set new \<longleftrightarrow>
        t = sum_list (map snd (day_dupes (cells day) (cells sid))) \<and> 0 < t \<and>
        p = filter (\<lambda>(k, n). 0 < n) (day_dupes (cells day) (cells sid))) \<and>
     (\<forall>m. V_id_uniqueness m \<in> set new \<longleftrightarrow>
        (\<exists>idc. df_col df ''id'' = Some idc \<and> m = dup_count (cells idc) \<and> 0 < m)) \<and>
     (passed res \<longleftrightarrow>
        dup_count (cells sid) = 0 \<and>
        sum_list (map snd (day_dupes (cells day) (cells sid))) = 0 \<and>
        (\<forall>idc. df_col df ''id'' = Some idc \<longrightarrow> dup_count (cells idc) = 0)) \<and>
     (cells sid = [ival 1, ival 1, ival 2] \<longrightarrow>
        V_primary_key_global 1 \<in> set new \<and> PkGlobalFail 1 \<in> set (issues res) \<and> \<not> passed res)"
proof -
  have "\<exists>res new. validate_primary_keys df [] = Inr (res, new) \<and>
     dup_count (cells sid) = length (cells sid) - card (set (cells sid)) \<and>
     (\<forall>n. V_primary_key_global n \<in> set new \<longleftrightarrow> n = dup_count (cells sid) \<and> 0 < n) \<and>
     (\<forall>t p. V_primary_key_within_day t p \<in> set new \<longleftrightarrow>
        t = sum_list (map snd (day_dupes (cells day) (cells sid))) \<and> 0 < t \<and>
        p = filter (\<lambda>(k, n). 0 < n) (day_dupes (cells day) (cells sid))) \<and>
     (\<forall>m. V_id_uniqueness m \<in> set new \<longleftrightarrow>
        (\<exists>idc. df_col df ''id'' = Some idc \<and> m = dup_count (cells idc) \<and> 0 < m)) \<and>
     (passed res \<longleftrightarrow>
        dup_count (cells sid) = 0 \<and>
        sum_list (map snd (day_dupes (cells day) (cells sid))) = 0 \<and>
        (\<forall>idc. df_col df ''id'' = Some idc \<longrightarrow> dup_count (cells idc) = 0)) \<and>
     (cells sid = [ival 1, ival 1, ival 2] \<longrightarrow>
        V_primary_key_global 1 \<in> set new \<and> PkGlobalFail 1 \<in> set (issues res) \<and> \<not> passed res)"
    by (rule primary_key_records [OF assms])
  then obtain res new where H: "validate_primary_keys df [] = Inr (res, new) \<and>
     dup_count (cells sid) = length (cells sid) - card (set (cells sid)) \<and>
     (\<forall>n. V_primary_key_global n \<in> set new \<longleftrightarrow> n = dup_count (cells sid) \<and> 0 < n) \<and>
     (\<forall>t p. V_primary_key_within_day t p \<in> set new \<longleftrightarrow>
        t = sum_list (map snd (day_dupes (cells day) (cells sid))) \<and> 0 < t \<and>
        p = filter (\<lambda>(k, n). 0 < n) (day_dupes (cells day) (cells sid))) \<and>
     (\<forall>m. V_id_uniqueness m \<in> set new \<longleftrightarrow>
        (\<exists>idc. df_col df ''id'' = Some idc \<and> m = dup_count (cells idc) \<and> 0 < m)) \<and>
     (passed res \<longleftrightarrow>
        dup_count (cells sid) = 0 \<and>
        sum_list (map snd (day_dupes (cells day) (cells sid))) = 0 \<and>
        (\<forall>idc. df_col df ''id'' = Some idc \<longrightarrow> dup_count (cells idc) = 0)) \<and>
     (cells sid = [ival 1, ival 1, ival 2] \<longrightarrow>
        V_primary_key_global 1 \<in> set new \<and> PkGlobalFail 1 \<in> set (issues res) \<and> \<not> passed res)"
    by (elim exE)
  have d1: "distinct (map fst (day_dupes (cells day) (cells sid)))"
    by (rule distinct_day_dupes)
  have d2: "\<forall>k n. (k, n) \<in> set (day_dupes (cells day) (cells sid)) \<longleftrightarrow>
        Val k \<in> set (cells day) \<and>
        n = length (map snd (filter (\<lambda>(d, x). d = Val k) (zip (cells day) (cells sid)))) -
            card (set (map snd (filter (\<lambda>(d, x). d = Val k) (zip (cells day) (cells sid)))))"
    by (intro allI) (rule day_dupes_entry)
  have d3: "sum_list (map snd (day_dupes (cells day) (cells sid))) =
       (\<Sum>k | Val k \<in> set (cells day).
          length (map snd (filter (\<lambda>(d, x). d = Val k) (zip (cells day) (cells sid)))) -
          card (set (map snd (filter (\<lambda>(d, x). d = Val k) (zip (cells day) (cells sid))))))"
    by (rule day_dupes_total)
  show ?thesis
    by (rule exI [of _ res], rule exI [of _ new], rule conjI [OF H [THEN conjunct1]],
        rule conjI [OF d1], rule conjI [OF d2], rule conjI [OF d3], rule H [THEN conjunct2])
qed

theorem primary_key_check_witness:
  "df_col pk_df ''Session_ID'' = Some pk_sid \<and> df_col pk_df ''Day'' = Some pk_day \<and>
   cells pk_sid = [ival 1, ival 1, ival 2] \<and>
   day_dupes (cells pk_day) (cells pk_sid) = [(N (Fin 1), 1), (N (Fin 2), 0)] \<and>
   (\<exists>res new. validate_primary_keys pk_df [] = Inr (res, new) \<and>
      new = [V_primary_key_global 1, V_primary_key_within_day 1 [(N (Fin 1), 1)],
             V_id_uniqueness 1] \<and>
      PkGlobalFail 1 \<in> set (issues res) \<and> \<not> passed res)"
proof -
  have h1: "df_col pk_df ''Session_ID'' = Some pk_sid"
    by (simp add: pk_df_def df_col_def)
  have h2: "df_col pk_df ''Day'' = Some pk_day"
    by (simp add: pk_df_def df_col_def)
  have c: "cells pk_sid = [ival 1, ival 1, ival 2]" by (simp add: pk_sid_def)
  have "\<exists>res new. validate_primary_keys pk_df [] = Inr (res, new)"
    using primary_key_check [OF h1 h2]
    apply -
    apply (erule exE)
    apply (erule exE)
    apply (erule conjE)
    apply (rule exI)
    apply (rule exI)
    apply assumption
    done
  then have r: "\<exists>res new. validate_primary_keys pk_df [] = Inr (res, new) \<and>
      new = [V_primary_key_global 1, V_primary_key_within_day 1 [(N (Fin 1), 1)],
             V_id_uniqueness 1] \<and>
      PkGlobalFail 1 \<in> set (issues res) \<and> \<not> passed res"
    by (simp add: pk_run)
  show ?thesis
    by (rule conjI [OF h1], rule conjI [OF h2], rule conjI [OF c],
        rule conjI [OF pk_day_dupes], rule r)
qed

section \<open>Categorical allow-list\<close>

lemma set_unexpected_values:
  "set (unexpected_values allowed cs) = set (dropna cs) - set allowed"
  by (auto simp: unexpected_values_def)

lemma distinct_unexpected_values: "distinct (unexpected_values allowed cs)"
  by (simp add: unexpected_values_def)

lemma isin_unexpected:
  "c \<in> set cs \<Longrightarrow>
     isin (unexpected_values allowed cs) c \<longleftrightarrow> (\<exists>v. c = Val v \<and> v \<notin> set allowed)"
  by (cases c) (auto simp: set_unexpected_values set_dropna)

lemma isin_count_unexpected:
  "isin_count (unexpected_values allowed cs) cs =
     length (filter (\<lambda>c. \<exists>v. c = Val v \<and> v \<notin> set allowed) cs)"
  unfolding isin_count_def
  by (rule arg_cong [where f = length], rule filter_cong) (simp_all add: isin_unexpected)

lemma set_missing_values:
  "set (missing_values allowed cs) = set allowed - set (dropna cs)"
  by (auto simp: missing_values_def)

lemma py_sorted_same_kind: "same_kind xs \<Longrightarrow> py_sorted xs = Inr (sort_scalars xs)"
  by (simp add: py_sorted_def)

lemma same_kind_remdups: "same_kind xs \<Longrightarrow> same_kind (remdups xs)"
  by (auto simp: same_kind_def list_all_iff)

lemma device_run:
  "validate_categorical device_df ''device'' device_spec [] =
     Inr (\<lparr>passed = False,
           issues = [CatFail ''device'' 1 {S ''Phone''}, RowsAffected 1,
                     CatMissing ''device'' {S ''Desktop'', S ''Tablet''}]\<rparr>,
          [V_categorical_allowed ''device'' [S ''Desktop'', S ''Mobile'', S ''Tablet'']
             [S ''Phone''] 1])"
  by (simp add: example_defs run_defs)

text \<open>
  C7, as stated, at a concrete input: the column \<^verbatim>\<open>gender\<close> holds the string
  \<^verbatim>\<open>"x"\<close> and the number 2, the allow-list is \<^verbatim>\<open>[0, 1]\<close>. Both values are unexpected,
  and \<^verbatim>\<open>sorted(unexpected)\<close> compares a string with a number: the check raises
  \<^verbatim>\<open>TypeError\<close> and records neither the unexpected set nor the count.
\<close>

theorem mixed_values_counterexample:
  "validate_categorical mixed_df ''gender'' binary_spec [] = Inl TypeError"
  by (simp add: example_defs run_defs)

text \<open>
  C7, amended: for a column with an allow-list rule whose unexpected values (the
  observed non-null values outside the allowed set) are all numbers or all strings,
  and whose allowed values are so too when there is an unexpected value, the
  categorical check returns and fails exactly when the set of observed non-null
  values minus the allowed set is non-empty. On failure it writes one record with the
  allowed set, that unexpected set and the number of rows whose value lies in it,
  which is the number of cells that are non-null and not allowed; a cell is counted
  if and only if it is non-null and not in the allowed set. The allowed values never
  observed appear only as a note among the issues, whatever the verdict.
\<close>

theorem allow_list_check:
  assumes "df_col df name = Some col"
    and "spec_allowed spec = Some allowed"
    and "same_kind (unexpected_values allowed (cells col))"
    and "unexpected_values allowed (cells col) \<noteq> [] \<longrightarrow> same_kind allowed"
  shows "\<exists>res new. validate_categorical df name spec [] = Inr (res, new) \<and>
     (passed res \<longleftrightarrow> set (dropna (cells col)) - set allowed = {}) \<and>
     (passed res \<longrightarrow> new = []) \<and>
     (\<not> passed res \<longrightarrow>
        (\<exists>expected unexpected.
           new = [V_categorical_allowed name expected unexpected
                   (length (filter (\<lambda>c. \<exists>v. c = Val v \<and> v \<notin> set allowed) (cells col)))] \<and>
           set expected = set allowed \<and>
           set unexpected = set (dropna (cells col)) - set allowed \<and>
           CatFail name (card (set (dropna (cells col)) - set allowed))
             (set (dropna (cells col)) - set allowed) \<in> set (issues res))) \<and>
     (\<forall>c \<in> set (cells col).
        isin (unexpected_values allowed (cells col)) c \<longleftrightarrow> (\<exists>v. c = Val v \<and> v \<notin> set allowed)) \<and>
     (\<forall>m. CatMissing name m \<in> set (issues res) \<longleftrightarrow>
        m = set allowed - set (dropna (cells col)) \<and> m \<noteq> {})"
proof -
  let ?u = "unexpected_values allowed (cells col)"
  let ?m = "missing_values allowed (cells col)"
  have contrib: "\<forall>c \<in> set (cells col). isin ?u c \<longleftrightarrow> (\<exists>v. c = Val v \<and> v \<notin> set allowed)"
    by (simp add: isin_unexpected)
  have empty_iff: "?u = [] \<longleftrightarrow> set (dropna (cells col)) - set allowed = {}"
    using set_unexpected_values [of allowed "cells col"] by (metis set_empty)
  have miss_iff: "?m = [] \<longleftrightarrow> set allowed - set (dropna (cells col)) = {}"
    using set_missing_values [of allowed "cells col"] by (metis set_empty)
  have card_u: "length ?u = card (set (dropna (cells col)) - set allowed)"
    using distinct_card [OF distinct_unexpected_values, of allowed "cells col"]
    by (simp add: set_unexpected_values)
  show ?thesis
  proof (cases "?u = []")
    case True
    with assms(1,2) have run: "validate_categorical df name spec [] =
        Inr (\<lparr>passed = True,
              issues = [CatOk name (set allowed)] @
                (if ?m \<noteq> [] then [CatMissing name (set ?m)] else [])\<rparr>, [])"
      by (simp add: validate_categorical_def Let_def)
    from True empty_iff have e: "set (dropna (cells col)) - set allowed = {}" by simp
    show ?thesis
      unfolding run using e contrib miss_iff
      by (auto simp: set_missing_values)
  next
    case False
    with assms(4) have sa: "same_kind (remdups allowed)" by (simp add: same_kind_remdups)
    from False assms(1,2) have run: "validate_categorical df name spec [] =
        Inr (\<lparr>passed = False,
              issues = [CatFail name (length ?u) (set ?u), RowsAffected (isin_count ?u (cells col))] @
                (if ?m \<noteq> [] then [CatMissing name (set ?m)] else [])\<rparr>,
             [V_categorical_allowed name (sort_scalars (remdups allowed)) (sort_scalars ?u)
                (isin_count ?u (cells col))])"
      by (simp add: validate_categorical_def Let_def py_sorted_same_kind [OF sa]
            py_sorted_same_kind [OF assms(3)])
    from False empty_iff have ne: "set (dropna (cells col)) - set allowed \<noteq> {}" by simp
    show ?thesis
      unfolding run using ne contrib miss_iff
      by (auto simp: set_missing_values set_sort_scalars set_unexpected_values card_u
            isin_count_unexpected)
  qed
qed

theorem allow_list_check_witness:
  "df_col device_df ''device'' = Some device_col \<and>
   spec_allowed device_spec = Some device_allowed \<and>
   unexpected_values device_allowed (cells device_col) = [S ''Phone''] \<and>
   same_kind [S ''Phone''] \<and> same_kind device_allowed \<and>
   (\<exists>res new. validate_categorical device_df ''device'' device_spec [] = Inr (res, new) \<and>
      \<not> passed res \<and>
      new = [V_categorical_allowed ''device'' [S ''Desktop'', S ''Mobile'', S ''Tablet'']
               [S ''Phone''] 1])"
proof -
  have h1: "df_col device_df ''device'' = Some device_col"
    by (simp add: device_df_def df_col_def)
  have h2: "spec_allowed device_spec = Some device_allowed"
    by (simp add: device_spec_def)
  have u: "unexpected_values device_allowed (cells device_col) = [S ''Phone'']"
    by (simp add: unexpected_values_def device_allowed_def device_col_def)
  have k: "same_kind [S ''Phone'']" "same_kind device_allowed"
    by (simp_all add: same_kind_def device_allowed_def)
  from k u have h3: "same_kind (unexpected_values device_allowed (cells device_col))"
    by simp
  from k have h4: "unexpected_values device_allowed (cells device_col) \<noteq> [] \<longrightarrow>
      same_kind device_allowed"
    by simp
  have "\<exists>res new. validate_categorical device_df ''device'' device_spec [] = Inr (res, new)"
    using allow_list_check [OF h1 h2 h3 h4]
    apply -
    apply (erule exE)
    apply (erule exE)
    apply (erule conjE)
    apply (rule exI)
    apply (rule exI)
    apply assumption
    done
  with h1 h2 u k show ?thesis
    by (simp add: device_run)
qed

section \<open>Contract columns missing from the dataset\<close>

lemma update_fresh: "k \<notin> fst ` set al \<Longrightarrow> AList.update k v al = al @ [(k, v)]"
  by (induction al) auto

lemma update_after_prefix:
  "k \<notin> fst ` set pre \<Longrightarrow> AList.update k v (pre @ al) = pre @ AList.update k v al"
  by (induction pre) auto

lemma nulls_loop_append:
  "nulls_loop df (xs @ ys) st = nulls_loop df ys (nulls_loop df xs st)"
proof (induction xs arbitrary: st)
  case Nil
  then show ?case by simp
next
  case (Cons entry rest)
  obtain k sp where entry: "entry = (k, sp)" by (cases entry)
  obtain res vs where st: "st = (res, vs)" by (cases st)
  show ?case using Cons.IH entry st by (simp add: Let_def split: option.splits)
qed

lemma validate_nulls_skip:
  "df_col df name = None \<Longrightarrow>
     validate_nulls (pre @ (name, spec) # post) df vs = validate_nulls (pre @ post) df vs"
proof -
  assume a: "df_col df name = None"
  have "nulls_loop df ((name, spec) # post) st = nulls_loop df post st" for st
    using a by (cases st) simp
  then show ?thesis by (simp add: validate_nulls_def nulls_loop_append)
qed

lemma columns_loop_append:
  "columns_loop df (xs @ ys) st =
     (case columns_loop df xs st of Inl e \<Rightarrow> Inl e | Inr st' \<Rightarrow> columns_loop df ys st')"
proof (induction xs arbitrary: st)
  case Nil
  then show ?case by simp
next
  case (Cons entry rest)
  obtain k sp where entry: "entry = (k, sp)" by (cases entry)
  obtain cols vs where st: "st = (cols, vs)" by (cases st)
  show ?case using Cons.IH entry st by (simp split: option.splits sum.splits)
qed

lemma columns_loop_keys:
  "columns_loop df contract (acc, v) = Inr (cols, w) \<Longrightarrow> distinct (map fst contract)
     \<Longrightarrow> fst ` set contract \<inter> fst ` set acc = {}
     \<Longrightarrow> map fst cols = map fst acc @ map fst contract"
proof (induction contract arbitrary: acc v)
  case Nil
  then show ?case by simp
next
  case (Cons entry rest)
  obtain k sp where entry: "entry = (k, sp)" by (cases entry)
  from Cons.prems(3) entry have fresh: "k \<notin> fst ` set acc" by auto
  from Cons.prems(2) have dist: "distinct (map fst rest)" by simp
  have disj: "fst ` set rest \<inter> fst ` set (acc @ [(k, r)]) = {}" for r
    using Cons.prems(2,3) entry by auto
  show ?case
  proof (cases "df_col df k")
    case None
    with Cons.prems(1) entry fresh
    have "columns_loop df rest
            (acc @ [(k, \<lparr>passed = False, issues = [ColumnMissing k]\<rparr>)], v) = Inr (cols, w)"
      by (simp add: update_fresh)
    from Cons.IH [OF this dist disj] entry show ?thesis by simp
  next
    case (Some c)
    with Cons.prems(1) entry fresh obtain r v1 where
      "columns_loop df rest (acc @ [(k, r)], v1) = Inr (cols, w)"
      by (auto simp: update_fresh split: sum.splits)
    from Cons.IH [OF this dist disj] entry show ?thesis by simp
  qed
qed

lemma columns_loop_prefix:
  "fst ` set contract \<inter> fst ` set pre = {} \<Longrightarrow>
     columns_loop df contract (pre @ acc, v) =
       map_sum id (\<lambda>(cols, w). (pre @ cols, w)) (columns_loop df contract (acc, v))"
proof (induction contract arbitrary: acc v)
  case Nil
  then show ?case by simp
next
  case (Cons entry rest)
  obtain k sp where entry: "entry = (k, sp)" by (cases entry)
  from Cons.prems entry have fresh: "k \<notin> fst ` set pre"
    and disj: "fst ` set rest \<inter> fst ` set pre = {}" by auto
  show ?case using Cons.IH [OF disj] entry fresh
    by (simp add: update_after_prefix split: option.splits sum.splits)
qed

lemma ghost_base_run:
  "validate_all (ghost_pre @ ghost_post) two_col_df [] =
     Inr (\<lparr>primary_keys = \<lparr>passed = True, issues = [PkGlobalOk, PkDayOk]\<rparr>,
           columns =
             [(''note'', \<lparr>passed = True, issues = []\<rparr>),
              (''age'', \<lparr>passed = False,
                         issues = [RangeFail ''age'' 2 (Fin 18) (Fin 65),
                                   RangeFound (Fin 17) (Fin 70)]\<rparr>)],
           nulls = \<lparr>passed = True, issues = [],
                    null_stats =
                      [(''note'', \<lparr>ns_count = 0, ns_percentage = ival 0, ns_allow_null = False\<rparr>),
                       (''age'', \<lparr>ns_count = 0, ns_percentage = ival 0, ns_allow_null = False\<rparr>)]\<rparr>,
           finite_numbers = \<lparr>passed = True, issues = [AllFinite]\<rparr>\<rparr>,
          [V_range ''age'' (Fin 18, Fin 65) 2 (Fin 17, Fin 70)])"
  by (simp add: example_defs run_defs)

text \<open>
  C6, as stated, at a concrete input: the contract names the column \<^verbatim>\<open>Day\<close> and the
  dataset does not have it. The primary-key check groups by \<^verbatim>\<open>Day\<close> before the loop
  over the contract reaches its guard for absent columns, so the full run ends with
  \<^verbatim>\<open>KeyError\<close> and produces no Column Result; the claim says the run never crashes.
\<close>

theorem absent_key_column_counterexample:
  "df_col no_day_df ''Day'' = None \<and> validate_all day_contract no_day_df [] = Inl KeyError"
  by (simp add: example_defs run_defs)

text \<open>
  C6, amended: for a contract entry whose column is absent from the dataset, the
  full run does exactly what it does on the contract without that entry, except that
  the columns dict of the report has one more entry, at the entry's position: the
  failing result with the column-missing issue. So the entry adds no raise (the run
  ends with an exception only if it does so without the entry, and then with the
  same one), no further check is run for the column (the violation list, the null
  statistics and every other part of the report are the same), and the results of
  all other columns are unchanged. The keys of a contract are distinct, as those of
  a dict are.
\<close>

theorem missing_column_one_result:
  assumes "df_col df name = None"
    and "distinct (map fst (pre @ (name, spec) # post))"
  shows "validate_all (pre @ (name, spec) # post) df vs =
    (case validate_all (pre @ post) df vs of
       Inl e \<Rightarrow> Inl e
     | Inr (res, vs') \<Rightarrow>
         Inr (res\<lparr>columns :=
                take (length pre) (columns res) @
                [(name, \<lparr>passed = False, issues = [ColumnMissing name]\<rparr>)] @
                drop (length pre) (columns res)\<rparr>, vs'))"
proof (cases "validate_primary_keys df vs")
  case (Inl e)
  then show ?thesis by (simp add: validate_all_def)
next
  case (Inr st)
  obtain pk v1 where st: "st = (pk, v1)" by (cases st)
  obtain nl v2 where nl: "validate_nulls (pre @ post) df v1 = (nl, v2)"
    by (cases "validate_nulls (pre @ post) df v1")
  obtain fin v3 where fin: "validate_finite_numbers df v2 = (fin, v3)"
    by (cases "validate_finite_numbers df v2")
  let ?m = "\<lparr>passed = False, issues = [ColumnMissing name]\<rparr>"
  have head: "validate_all (pre @ post) df vs =
      (case columns_loop df (pre @ post) ([], v3) of
         Inl e \<Rightarrow> Inl e
       | Inr (cols, v4) \<Rightarrow>
           Inr (\<lparr>primary_keys = pk, columns = cols, nulls = nl, finite_numbers = fin\<rparr>, v4))"
    using Inr st nl fin by (simp add: validate_all_def)
  have head': "validate_all (pre @ (name, spec) # post) df vs =
      (case columns_loop df (pre @ (name, spec) # post) ([], v3) of
         Inl e \<Rightarrow> Inl e
       | Inr (cols, v4) \<Rightarrow>
           Inr (\<lparr>primary_keys = pk, columns = cols, nulls = nl, finite_numbers = fin\<rparr>, v4))"
    using Inr st nl fin assms(1) by (simp add: validate_all_def validate_nulls_skip)
  show ?thesis
  proof (cases "columns_loop df pre ([], v3)")
    case (Inl e)
    then show ?thesis unfolding head head' by (simp add: columns_loop_append)
  next
    case (Inr st1)
    obtain c1 w1 where st1: "st1 = (c1, w1)" by (cases st1)
    from assms(2) have dist: "distinct (map fst pre)" by simp
    from columns_loop_keys [OF Inr [unfolded st1] dist] have keys: "map fst c1 = map fst pre"
      by simp
    then have len: "length c1 = length pre" by (metis length_map)
    from keys have "set (map fst c1) = set (map fst pre)" by simp
    then have img: "fst ` set c1 = fst ` set pre" by simp
    from assms(2) have fresh: "name \<notin> fst ` set c1"
      unfolding img by auto
    from assms(2) have d1: "fst ` set post \<inter> fst ` set c1 = {}"
      unfolding img by auto
    have d2: "fst ` set post \<inter> fst ` set (c1 @ [(name, ?m)]) = {}"
      using d1 assms(2) by auto
    have a: "columns_loop df (pre @ post) ([], v3) =
        map_sum id (\<lambda>(cols, w). (c1 @ cols, w)) (columns_loop df post ([], w1))"
      using Inr st1 columns_loop_prefix [OF d1, of df "[]" w1]
      by (simp add: columns_loop_append)
    have b: "columns_loop df (pre @ (name, spec) # post) ([], v3) =
        map_sum id (\<lambda>(cols, w). (c1 @ [(name, ?m)] @ cols, w)) (columns_loop df post ([], w1))"
      using Inr st1 assms(1) fresh columns_loop_prefix [OF d2, of df "[]" w1]
      by (simp add: columns_loop_append update_fresh)
    show ?thesis
      unfolding head head' a b using len
      by (cases "columns_loop df post ([], w1)") auto
  qed
qed

theorem missing_column_one_result_witness:
  "df_col two_col_df ''ghost'' = None \<and>
   distinct (map fst (ghost_pre @ (''ghost'', no_rules) # ghost_post)) \<and>
   map_sum id (\<lambda>(res, vs). (columns res, vs))
     (validate_all (ghost_pre @ (''ghost'', no_rules) # ghost_post) two_col_df []) =
     Inr ([(''note'', \<lparr>passed = True, issues = []\<rparr>),
           (''ghost'', \<lparr>passed = False, issues = [ColumnMissing ''ghost'']\<rparr>),
           (''age'', \<lparr>passed = False,
                      issues = [RangeFail ''age'' 2 (Fin 18) (Fin 65),
                                RangeFound (Fin 17) (Fin 70)]\<rparr>)],
          [V_range ''age'' (Fin 18, Fin 65) 2 (Fin 17, Fin 70)])"
proof -
  have h1: "df_col two_col_df ''ghost'' = None"
    by (simp add: example_defs df_col_def)
  have h2: "distinct (map fst (ghost_pre @ (''ghost'', no_rules) # ghost_post))"
    by (simp add: ghost_pre_def ghost_post_def
  dup_contract_def dup_report_def)
  have len: "length ghost_pre = 1" by (simp add: ghost_pre_def)
  from missing_column_one_result [OF h1 h2, of "[]"] h1 h2 show ?thesis
    by (simp add: ghost_base_run len)
qed

section \<open>Repeated runs\<close>

















end
